theory Spec2Isabelle
  imports Main
begin

section \<open>String primitives of the host language\<close>

text \<open>
  Strings are character lists. The functions below are the \<^verbatim>\<open>String.prototype\<close>
  methods the generator calls, with the results ECMAScript gives them: an index is an
  integer, \<open>-1\<close> when there is no occurrence, and \<^verbatim>\<open>substring\<close> clamps its
  arguments to the string and swaps them when they are out of order.
\<close>

fun startsWith :: "string \<Rightarrow> string \<Rightarrow> bool" where
  "startsWith s [] = True"
| "startsWith [] (c # cs) = False"
| "startsWith (x # xs) (c # cs) = (x = c \<and> startsWith xs cs)"

fun indexOf :: "string \<Rightarrow> string \<Rightarrow> int" where
  "indexOf [] needle = (if needle = [] then 0 else -1)"
| "indexOf (x # xs) needle =
     (if startsWith (x # xs) needle then 0
      else (let i = indexOf xs needle in if i < 0 then -1 else i + 1))"

fun lastIndexOf :: "string \<Rightarrow> string \<Rightarrow> int" where
  "lastIndexOf [] needle = (if needle = [] then 0 else -1)"
| "lastIndexOf (x # xs) needle =
     (let i = lastIndexOf xs needle in
      if 0 \<le> i then i + 1
      else if startsWith (x # xs) needle then 0 else -1)"

definition includes_str :: "string \<Rightarrow> string \<Rightarrow> bool" where
  "includes_str s needle = (0 \<le> indexOf s needle)"

definition clampIndex :: "string \<Rightarrow> int \<Rightarrow> nat" where
  "clampIndex s i = min (length s) (nat i)"

definition substring :: "string \<Rightarrow> int \<Rightarrow> int \<Rightarrow> string" where
  "substring s a b =
     (let lo = min (clampIndex s a) (clampIndex s b);
          hi = max (clampIndex s a) (clampIndex s b)
      in take (hi - lo) (drop lo s))"

definition substringFrom :: "string \<Rightarrow> int \<Rightarrow> string" where
  "substringFrom s a = drop (clampIndex s a) s"

text \<open>
  \<^verbatim>\<open>text.split(sep)\<close>: \<open>splitAcc\<close> carries the piece being read, reversed, and
  steps over a separator found at the head (its first character and the \<open>length sep - 1\<close>
  after it). An empty separator splits the text into its characters.
\<close>

fun splitAcc :: "string \<Rightarrow> string \<Rightarrow> string \<Rightarrow> string list" where
  "splitAcc sep acc [] = [rev acc]"
| "splitAcc sep acc (x # xs) =
     (if startsWith (x # xs) sep
      then rev acc # splitAcc sep [] (drop (length sep - 1) xs)
      else splitAcc sep (x # acc) xs)"

definition split :: "string \<Rightarrow> string \<Rightarrow> string list" where
  "split s sep = (if sep = [] then map (\<lambda>c. [c]) s else splitAcc sep [] s)"

fun join :: "string list \<Rightarrow> string \<Rightarrow> string" where
  "join [] sep = []"
| "join [x] sep = x"
| "join (x # y # ys) sep = x @ sep @ join (y # ys) sep"

text \<open>
  Case mapping, on the ASCII letters; every other character is left as it is.
\<close>

definition toUpperChar :: "char \<Rightarrow> char" where
  "toUpperChar c =
     (case map_of (zip ''abcdefghijklmnopqrstuvwxyz'' ''ABCDEFGHIJKLMNOPQRSTUVWXYZ'') c of
        Some u \<Rightarrow> u | None \<Rightarrow> c)"

definition toLowerChar :: "char \<Rightarrow> char" where
  "toLowerChar c =
     (case map_of (zip ''ABCDEFGHIJKLMNOPQRSTUVWXYZ'' ''abcdefghijklmnopqrstuvwxyz'') c of
        Some l \<Rightarrow> l | None \<Rightarrow> c)"

definition toUpperCase :: "string \<Rightarrow> string" where
  "toUpperCase s = map toUpperChar s"

definition toLowerCase :: "string \<Rightarrow> string" where
  "toLowerCase s = map toLowerChar s"

definition isUpperAZ :: "char \<Rightarrow> bool" where
  "isUpperAZ c = (c \<in> set ''ABCDEFGHIJKLMNOPQRSTUVWXYZ'')"

definition isWordChar :: "char \<Rightarrow> bool" where
  "isWordChar c =
     (c \<in> set ''abcdefghijklmnopqrstuvwxyzABCDEFGHIJKLMNOPQRSTUVWXYZ0123456789_'')"

definition isWhiteSpace :: "char \<Rightarrow> bool" where
  "isWhiteSpace c =
     (c \<in> {CHR 0x09, CHR 0x0A, CHR 0x0B, CHR 0x0C, CHR 0x0D, CHR 0x20, CHR 0xA0})"

text \<open>A value is truthy when it is present and, for a string, not empty.\<close>

fun truthy :: "string option \<Rightarrow> bool" where
  "truthy None = False"
| "truthy (Some s) = (s \<noteq> [])"

fun orElse :: "string option \<Rightarrow> string \<Rightarrow> string" where
  "orElse None d = d"
| "orElse (Some s) d = (if s = [] then d else s)"

section \<open>utils/string.ts\<close>

definition replaceAll :: "string \<Rightarrow> string \<Rightarrow> string \<Rightarrow> string" where
  "replaceAll text search replace = join (split text search) replace"

definition sanitizePropertyName :: "string \<Rightarrow> string" where
  "sanitizePropertyName name = replaceAll name ''.'' ''_''"

text \<open>
  \<^verbatim>\<open>camelize\<close> rewrites every match of \<^verbatim>\<open>/(?:^\w|[A-Z]|\b\w)/g\<close>, a single character
  that is an upper-case letter or a word character with no word character before it, to
  lower case at index 0 and to upper case elsewhere, and then drops the white space.
  \<open>camelizeFrom\<close> walks the string with the previous character, \<open>None\<close> at index 0.
\<close>

fun camelizeFrom :: "char option \<Rightarrow> string \<Rightarrow> string" where
  "camelizeFrom prev [] = []"
| "camelizeFrom prev (c # cs) =
     (let matched = (isUpperAZ c \<or>
                     (isWordChar c \<and> (case prev of None \<Rightarrow> True | Some p \<Rightarrow> \<not> isWordChar p)));
          c' = (if matched then (if prev = None then toLowerChar c else toUpperChar c) else c)
      in c' # camelizeFrom (Some c) cs)"

definition camelize :: "string \<Rightarrow> string" where
  "camelize str = filter (\<lambda>c. \<not> isWhiteSpace c) (camelizeFrom None str)"

section \<open>utils/path.ts\<close>

record ModelPathAndName =
  modelPath :: string
  modelName :: string

definition getModelPathAndName :: "string \<Rightarrow> string \<Rightarrow> ModelPathAndName" where
  "getModelPathAndName model0 divider =
     (let model = (if includes_str model0 ''System.Collections.Generic.IEnumerable''
                   then substring model0 (lastIndexOf model0 ''[['' + 2) (indexOf model0 '','')
                   else model0);
          lastIndex = lastIndexOf model divider
      in if lastIndex = -1
         then \<lparr>modelPath = [], modelName = model\<rparr>
         else \<lparr>modelPath = substring model 0 lastIndex,
               modelName = substringFrom model (lastIndex + 1)\<rparr>)"

definition createCorrectPath :: "string \<Rightarrow> string" where
  "createCorrectPath mp =
     join (map (\<lambda>segment. if segment = toUpperCase segment then toLowerCase segment
                           else camelize segment)
               (split (replaceAll mp ''.'' ''/'') ''/''))
          ''/''"

text \<open>
  \<^verbatim>\<open>path.join\<close> of the POSIX flavour: the non-empty arguments joined by a slash, then
  normalised. \<open>normalizeSegments\<close> drops empty and \<^verbatim>\<open>.\<close> segments and lets \<^verbatim>\<open>..\<close>
  remove the segment before it; above the root of a relative path \<^verbatim>\<open>..\<close> stays.
\<close>

fun normalizeSegments :: "bool \<Rightarrow> string list \<Rightarrow> string list \<Rightarrow> string list" where
  "normalizeSegments allowAboveRoot res [] = rev res"
| "normalizeSegments allowAboveRoot res (seg # segs) =
     (if seg = [] \<or> seg = ''.'' then normalizeSegments allowAboveRoot res segs
      else if seg = ''..'' then
        (case res of
           [] \<Rightarrow> normalizeSegments allowAboveRoot (if allowAboveRoot then [seg] else []) segs
         | r # rs \<Rightarrow>
             if r = ''..'' then normalizeSegments allowAboveRoot (seg # res) segs
             else normalizeSegments allowAboveRoot rs segs)
      else normalizeSegments allowAboveRoot (seg # res) segs)"

definition normalizePath :: "string \<Rightarrow> string" where
  "normalizePath p =
     (if p = [] then ''.''
      else let isAbsolute = (hd p = CHR ''/'');
               trailingSeparator = (last p = CHR ''/'');
               body = join (normalizeSegments (\<not> isAbsolute) [] (split p ''/'')) ''/''
           in if body = [] then (if isAbsolute then ''/'' else if trailingSeparator then ''./'' else ''.'')
              else (if isAbsolute then ''/'' else []) @ body @ (if trailingSeparator then ''/'' else []))"

definition pathJoin :: "string list \<Rightarrow> string" where
  "pathJoin args =
     (let parts = filter (\<lambda>a. a \<noteq> []) args
      in if parts = [] then ''.'' else normalizePath (join parts ''/''))"

definition buildFilePath :: "string \<Rightarrow> string \<Rightarrow> string \<Rightarrow> string \<Rightarrow> string" where
  "buildFilePath basePath category itemPath fileName =
     pathJoin [basePath, category, itemPath, fileName @ ''.ts'']"

section \<open>core/config.ts\<close>

definition API_OUTPUT_PATH :: string where
  "API_OUTPUT_PATH = ''data-access/web-service''"

record ConfigOptions =
  useStrictTypes :: bool
  generateComments :: bool
  generateJsDoc :: bool
  indentation :: nat
  cleanOutputDir :: bool
  filesToKeep :: "string list"

section \<open>types/ISchema.ts and types/IGenerator.ts\<close>

text \<open>
  A schema node. Every field is optional, as in the interface; \<open>ref\<close> is the
  \<^verbatim>\<open>$ref\<close> field and \<open>sType\<close> the \<^verbatim>\<open>type\<close> field. An object of properties is the list
  of its entries in the order \<^verbatim>\<open>Object.entries\<close> yields them. Field names that several
  interfaces share carry a suffix for their interface.
\<close>

datatype SchemaObject = SchemaObject
  (sType: "string option")
  (format: "string option")
  (nullable: "bool option")
  (required: "string list option")
  (properties: "(string \<times> SchemaObject) list option")
  (additionalProperties: "AdditionalProperties option")
  (items: "SchemaObject option")
  (ref: "string option")
  (allOf: "SchemaObject list option")
  (oneOf: "SchemaObject list option")
  (anyOf: "SchemaObject list option")
  (description: "string option")
and AdditionalProperties = AdditionalFlag bool | AdditionalSchema SchemaObject

text \<open>
  A dictionary of schemas is an object read from JSON, here the list of its own entries.
  The expression \<^verbatim>\<open>definitions[name]\<close> yields the entry of \<open>name\<close> if the object has
  one and, if it has none, the member of that name that every object inherits from
  \<^verbatim>\<open>Object.prototype\<close>, when \<open>name\<close> is one of the twelve names listed. Such a member
  is a function (for \<^verbatim>\<open>__proto__\<close>, the prototype itself): it is truthy, and every
  field a schema is read by is undefined on it.
\<close>

definition objectPrototypeMembers :: "string list" where
  "objectPrototypeMembers =
     [''constructor'', ''__defineGetter__'', ''__defineSetter__'', ''hasOwnProperty'',
      ''__lookupGetter__'', ''__lookupSetter__'', ''isPrototypeOf'', ''propertyIsEnumerable'',
      ''toString'', ''valueOf'', ''__proto__'', ''toLocaleString'']"

definition inheritedMember :: SchemaObject where
  "inheritedMember = SchemaObject None None None None None None None None None None None None"

definition lookupDefinition :: "(string \<times> SchemaObject) list \<Rightarrow> string \<Rightarrow> SchemaObject option" where
  "lookupDefinition definitions name =
     (case map_of definitions name of
        Some schema \<Rightarrow> Some schema
      | None \<Rightarrow> if name \<in> set objectPrototypeMembers then Some inheritedMember else None)"

text \<open>
  The number of names \<open>lookupDefinition\<close> can find: the bound on the depth of the
  recursive walks below, which enter a name at most once.
\<close>

definition nameCount :: "(string \<times> SchemaObject) list \<Rightarrow> nat" where
  "nameCount definitions = length definitions + length objectPrototypeMembers"

record ImportStatement =
  name_i :: string
  path_i :: string
  isDefault :: "bool option"

record ModelProperty =
  propertyName :: string
  type_m :: string
  isOptional_m :: bool
  description_m :: "string option"

record GeneratedOutput =
  content :: "string list"
  path :: string
  filename :: string

section \<open>builder/CodeBuilder.ts\<close>

text \<open>
  The builder's buffer is kept as the list of the lines appended so far; the text that
  \<^verbatim>\<open>build\<close> returns is every line followed by a line feed. A callback that writes a block's
  body is a function on builders, written as the composition of the builder's operations
  in the callback, the last one first. An options object becomes the arguments the generators
  pass; the options no generator sets (decorators, access modifiers, type parameters,
  \<^verbatim>\<open>implements\<close>, initialisers) are left out.
\<close>

record CodeBuilder =
  indentLevel :: nat
  content_b :: "string list"
  indentString :: string

text \<open>
  The static field \<^verbatim>\<open>CodeBuilder.defaultIndentSize\<close> belongs to the process and not to a
  builder or a generator: it starts as 2 and \<^verbatim>\<open>setDefaultIndentLevel\<close> is its only
  writer. \<open>setDefaultIndentLevel n\<close> is the value the field has after the call.
  No generator passes a size to the constructor, so \<open>newCodeBuilder\<close> takes the value
  of the field at the time of the call; every function below that makes a builder has
  that value as its first argument, \<open>indentSize\<close>.
\<close>

definition initialIndentSize :: nat where
  "initialIndentSize = 2"

definition setDefaultIndentLevel :: "nat \<Rightarrow> nat" where
  "setDefaultIndentLevel n = max 1 n"

definition newCodeBuilder :: "nat \<Rightarrow> CodeBuilder" where
  "newCodeBuilder indentSize =
     \<lparr>indentLevel = 0, content_b = [], indentString = replicate indentSize CHR '' ''\<rparr>"

definition appendLine :: "string \<Rightarrow> CodeBuilder \<Rightarrow> CodeBuilder" where
  "appendLine line b =
     b\<lparr>content_b := content_b b @ [concat (replicate (indentLevel b) (indentString b)) @ line]\<rparr>"

definition appendEmptyLine :: "CodeBuilder \<Rightarrow> CodeBuilder" where
  "appendEmptyLine b = b\<lparr>content_b := content_b b @ [[]]\<rparr>"

definition indentBy :: "int \<Rightarrow> CodeBuilder \<Rightarrow> CodeBuilder" where
  "indentBy count b = b\<lparr>indentLevel := nat (int (indentLevel b) + count)\<rparr>"

text \<open>
  The same three operations on a builder whose fields are known. Evaluation uses these
  equations, so that an operation is computed once the builder it is applied to is.
\<close>

lemma appendLine_code [code]:
  "appendLine line \<lparr>indentLevel = n, content_b = ls, indentString = ind\<rparr> =
     \<lparr>indentLevel = n, content_b = ls @ [concat (replicate n ind) @ line], indentString = ind\<rparr>"
  by (simp add: appendLine_def)

lemma appendEmptyLine_code [code]:
  "appendEmptyLine \<lparr>indentLevel = n, content_b = ls, indentString = ind\<rparr> =
     \<lparr>indentLevel = n, content_b = ls @ [[]], indentString = ind\<rparr>"
  by (simp add: appendEmptyLine_def)

lemma indentBy_code [code]:
  "indentBy count \<lparr>indentLevel = n, content_b = ls, indentString = ind\<rparr> =
     \<lparr>indentLevel = nat (int n + count), content_b = ls, indentString = ind\<rparr>"
  by (simp add: indentBy_def)

definition build :: "CodeBuilder \<Rightarrow> string list" where
  "build b = content_b b"

definition contentText :: "string list \<Rightarrow> string" where
  "contentText ls = concat (map (\<lambda>l. l @ [CHR 0x0A]) ls)"

text \<open>
  \<^verbatim>\<open>createJSDocBlock(description, tags)\<close>: \<open>desc\<close> is the list of description lines, \<open>None\<close>
  for a missing or empty description; a tag is a pair of its name and text.
\<close>

definition createJSDocBlock ::
  "string list option \<Rightarrow> (string \<times> string) list \<Rightarrow> CodeBuilder \<Rightarrow> CodeBuilder" where
  "createJSDocBlock desc tags b =
     (let b1 = appendLine ''/**'' b;
          b2 = (case desc of None \<Rightarrow> b1
                | Some descLines \<Rightarrow>
                    (let b' = fold (\<lambda>line. appendLine ('' * '' @ line)) descLines b1
                     in if tags \<noteq> [] \<and> descLines \<noteq> [] then appendLine '' *'' b' else b'));
          b3 = fold (\<lambda>(tag, text). appendLine ('' * @'' @ tag @ '' '' @ text)) tags b2
      in appendLine '' */'' b3)"

fun descriptionLines :: "string option \<Rightarrow> string list option" where
  "descriptionLines None = None"
| "descriptionLines (Some d) = (if d = [] then None else Some [d])"

definition describe :: "string option \<Rightarrow> CodeBuilder \<Rightarrow> CodeBuilder" where
  "describe d b = (if truthy d then createJSDocBlock (descriptionLines d) [] b else b)"

definition createFileHeader :: "CodeBuilder \<Rightarrow> CodeBuilder" where
  "createFileHeader b =
     createJSDocBlock (Some [''This code was generated using a code generation tool.'',
                             [],
                             ''Manual changes to this file may cause unexpected behavior.'',
                             ''Manual changes will be overwritten if the code is regenerated.'']) [] b"

text \<open>
  \<^verbatim>\<open>createImports\<close> groups the imports by path, in the order the paths first occur, and
  writes one statement per path. No generator sets \<^verbatim>\<open>isTypeOnly\<close>, so the
  \<^verbatim>\<open>type\<close> prefix is never written.
\<close>

fun importPaths :: "ImportStatement list \<Rightarrow> string list" where
  "importPaths [] = []"
| "importPaths (imp # imps) = path_i imp # filter (\<lambda>p. p \<noteq> path_i imp) (importPaths imps)"

definition importStatement :: "ImportStatement list \<Rightarrow> string \<Rightarrow> string" where
  "importStatement imports p =
     (let group = filter (\<lambda>i. path_i i = p) imports;
          defaultImports = map name_i (filter (\<lambda>i. isDefault i = Some True) group);
          namedImports = map name_i (filter (\<lambda>i. isDefault i \<noteq> Some True) group)
      in ''import ''
         @ (if defaultImports \<noteq> []
            then join defaultImports '', '' @ (if namedImports \<noteq> [] then '', '' else [])
            else [])
         @ (if namedImports \<noteq> [] then ''{ '' @ join namedImports '', '' @ '' }'' else [])
         @ '' from '' @ [CHR 0x27] @ p @ [CHR 0x27] @ '';'')"

definition createImports :: "ImportStatement list \<Rightarrow> CodeBuilder \<Rightarrow> CodeBuilder" where
  "createImports imports b =
     (if imports = [] then b
      else appendEmptyLine
             (fold (\<lambda>p. appendLine (importStatement imports p)) (importPaths imports) b))"

definition createBlock ::
  "string \<Rightarrow> (CodeBuilder \<Rightarrow> CodeBuilder) \<Rightarrow> CodeBuilder \<Rightarrow> CodeBuilder" where
  "createBlock openingLine bodyContent b =
     appendLine ''}'' (indentBy (-1) (bodyContent (indentBy 1 (appendLine (openingLine @ '' {'') b))))"

definition createClass ::
  "string \<Rightarrow> string option \<Rightarrow> string option \<Rightarrow> (CodeBuilder \<Rightarrow> CodeBuilder)
     \<Rightarrow> CodeBuilder \<Rightarrow> CodeBuilder" where
  "createClass cname extends desc bodyContent b =
     createBlock (''export class '' @ cname
                  @ (if truthy extends then '' extends '' @ the extends else []))
                 bodyContent (describe desc b)"

definition createMethod ::
  "string \<Rightarrow> (string \<times> string) list \<Rightarrow> string option \<Rightarrow> string option
     \<Rightarrow> (CodeBuilder \<Rightarrow> CodeBuilder) \<Rightarrow> CodeBuilder \<Rightarrow> CodeBuilder" where
  "createMethod mname params returnType desc bodyContent b =
     createBlock (mname @ ''('' @ join (map (\<lambda>(n, t). n @ '': '' @ t) params) '', '' @ '')''
                  @ (if truthy returnType then '': '' @ the returnType else []))
                 bodyContent (describe desc b)"

definition createProperty ::
  "string \<Rightarrow> string \<Rightarrow> bool \<Rightarrow> string option \<Rightarrow> CodeBuilder \<Rightarrow> CodeBuilder" where
  "createProperty pname ptype optional desc b =
     appendLine (pname @ (if optional then ''?'' else []) @ '': '' @ ptype @ '';'') (describe desc b)"

definition createInterface ::
  "string \<Rightarrow> string option \<Rightarrow> (CodeBuilder \<Rightarrow> CodeBuilder) \<Rightarrow> CodeBuilder \<Rightarrow> CodeBuilder" where
  "createInterface iname desc bodyContent b =
     createBlock (''export interface '' @ iname) bodyContent (describe desc b)"

definition createInterfaceProperty ::
  "string \<Rightarrow> string \<Rightarrow> bool \<Rightarrow> string option \<Rightarrow> CodeBuilder \<Rightarrow> CodeBuilder" where
  "createInterfaceProperty pname ptype optional desc b =
     appendLine (pname @ (if optional then ''?'' else []) @ '': '' @ ptype @ '';'') (describe desc b)"

definition createTypeAlias ::
  "string \<Rightarrow> string \<Rightarrow> string option \<Rightarrow> CodeBuilder \<Rightarrow> CodeBuilder" where
  "createTypeAlias tname ty desc b =
     appendEmptyLine (appendLine (''export type '' @ tname @ '' = '' @ ty @ '';'') (describe desc b))"

section \<open>builder/generators/BaseGenerator.ts\<close>

text \<open>
  The name a reference string points at: what follows its last slash, the whole string
  when it has none (\<^verbatim>\<open>ref.substring(ref.lastIndexOf("/") + 1)\<close>, written out in every
  generator and named \<^verbatim>\<open>extractRefName\<close> in the parser).
\<close>

definition extractRefName :: "string \<Rightarrow> string" where
  "extractRefName r = substringFrom r (lastIndexOf r ''/'' + 1)"

definition addFileHeader :: "CodeBuilder \<Rightarrow> CodeBuilder" where
  "addFileHeader b = appendEmptyLine (createFileHeader b)"

text \<open>
  The filter of \<^verbatim>\<open>addImportStatements\<close> keeps an import whose name is not the current
  model's and that has no equal import (same path and name) before it; \<open>seen\<close> is the
  part of the array before the import.
\<close>

fun uniqueImportsFrom :: "string \<Rightarrow> ImportStatement list \<Rightarrow> ImportStatement list \<Rightarrow> ImportStatement list" where
  "uniqueImportsFrom currentName seen [] = []"
| "uniqueImportsFrom currentName seen (imp # rest) =
     (if name_i imp \<noteq> currentName
         \<and> \<not> list_ex (\<lambda>i. path_i i = path_i imp \<and> name_i i = name_i imp) seen
      then [imp] else [])
     @ uniqueImportsFrom currentName (seen @ [imp]) rest"

definition addImportStatements :: "ImportStatement list \<Rightarrow> string \<Rightarrow> CodeBuilder \<Rightarrow> CodeBuilder" where
  "addImportStatements imports currentName b =
     (let uniqueImports = uniqueImportsFrom currentName [] imports
      in if uniqueImports \<noteq> [] then createImports uniqueImports b else b)"

definition isPrimitiveType :: "string \<Rightarrow> bool" where
  "isPrimitiveType t =
     (t \<in> set [''string'', ''number'', ''boolean'', ''any'', ''void'', ''Object'', ''Array''])"

definition mapPrimitiveType :: "string \<Rightarrow> string option \<Rightarrow> string" where
  "mapPrimitiveType t fmt =
     (if t = ''integer'' \<or> t = ''number'' then ''number''
      else if t = ''string'' then
        (if fmt = Some ''date'' \<or> fmt = Some ''date-time'' then ''string''
         else if fmt = Some ''binary'' then ''Blob''
         else if fmt = Some ''byte'' then ''string''
         else ''string'')
      else if t = ''boolean'' then ''boolean''
      else if t = ''object'' then ''Record<string, any>''
      else if t = ''array'' then ''Array<any>''
      else ''any'')"

definition normalizeSchemaType :: "SchemaObject option \<Rightarrow> string" where
  "normalizeSchemaType schema =
     (case schema of
        None \<Rightarrow> ''void''
      | Some s \<Rightarrow>
          if truthy (ref s) then extractRefName (the (ref s))
          else if truthy (sType s)
          then toUpperCase (take 1 (the (sType s))) @ drop 1 (the (sType s))
          else ''void'')"

definition isPdfResponse :: "string option \<Rightarrow> bool" where
  "isPdfResponse t = (case t of None \<Rightarrow> False | Some s \<Rightarrow> includes_str s ''Stream'')"

section \<open>builder/generators/DTOGenerator.ts\<close>

text \<open>
  The import of a model's file, from the model's qualified name and from a reference to
  it.
\<close>

definition modelImport :: "string \<Rightarrow> ImportStatement" where
  "modelImport model =
     (let pn = getModelPathAndName model ''.''
      in \<lparr>name_i = modelName pn,
          path_i = API_OUTPUT_PATH @ ''/dto/'' @ createCorrectPath (modelPath pn) @ ''/'' @ modelName pn,
          isDefault = None\<rparr>)"

definition dtoImport :: "string \<Rightarrow> ImportStatement" where
  "dtoImport r = modelImport (extractRefName r)"

text \<open>
  \<^verbatim>\<open>processInheritance\<close>: the members of \<^verbatim>\<open>allOf\<close> that carry a reference, as imports
  and as an intersection of their names; a member without a reference is passed over.
\<close>

fun inheritanceLoop ::
  "SchemaObject list \<Rightarrow> ImportStatement list \<times> string \<Rightarrow> ImportStatement list \<times> string" where
  "inheritanceLoop [] acc = acc"
| "inheritanceLoop (item # rest) (imports, typeDef) =
     (if \<not> truthy (ref item) then inheritanceLoop rest (imports, typeDef)
      else let imp = dtoImport (the (ref item))
           in inheritanceLoop rest
                (imports @ [imp],
                 if typeDef \<noteq> [] then typeDef @ '' & '' @ name_i imp else name_i imp))"

definition processInheritance :: "SchemaObject \<Rightarrow> ImportStatement list \<times> string" where
  "processInheritance definition =
     (case allOf definition of None \<Rightarrow> ([], [])
      | Some members \<Rightarrow> inheritanceLoop members ([], []))"

fun additionalTruthy :: "AdditionalProperties option \<Rightarrow> bool" where
  "additionalTruthy None = False"
| "additionalTruthy (Some (AdditionalFlag f)) = f"
| "additionalTruthy (Some (AdditionalSchema s)) = True"

fun resolvePropertyType :: "SchemaObject \<Rightarrow> string" where
  "resolvePropertyType (SchemaObject ty fmt nl rq props addl its rf ao oo an ds) =
     (if truthy rf then modelName (getModelPathAndName (extractRefName (the rf)) ''.'')
      else if ty = Some ''array'' then
        (case its of
           None \<Rightarrow> mapPrimitiveType ''any'' None
         | Some it \<Rightarrow>
             if truthy (ref it)
             then modelName (getModelPathAndName (extractRefName (the (ref it))) ''.'')
             else mapPrimitiveType (orElse (sType it) ''any'') None) @ ''[]''
      else if ty = Some ''object'' \<and> additionalTruthy addl then
        ''Record<string, ''
        @ (case addl of Some (AdditionalSchema s) \<Rightarrow> resolvePropertyType s | _ \<Rightarrow> ''any'')
        @ ''>''
      else mapPrimitiveType (orElse ty ''any'') fmt)"

text \<open>
  One round of the loop of \<^verbatim>\<open>collectProperties\<close>: the property it pushes and the
  imports it adds.
\<close>

definition isRequired :: "SchemaObject \<Rightarrow> string \<Rightarrow> bool" where
  "isRequired definition propName =
     (case required definition of None \<Rightarrow> False | Some names \<Rightarrow> propName \<in> set names)"

definition isNullable :: "SchemaObject \<Rightarrow> bool" where
  "isNullable schema = (case nullable schema of None \<Rightarrow> False | Some n \<Rightarrow> n)"

definition collectProperty :: "SchemaObject \<Rightarrow> string \<Rightarrow> SchemaObject \<Rightarrow> ModelProperty" where
  "collectProperty definition propName schema =
     \<lparr>propertyName = sanitizePropertyName propName,
      type_m = resolvePropertyType schema,
      isOptional_m = (\<not> isRequired definition propName \<or> isNullable schema),
      description_m = description schema\<rparr>"

definition referenceImports :: "SchemaObject \<Rightarrow> ImportStatement list" where
  "referenceImports schema =
     (if truthy (ref schema) then [dtoImport (the (ref schema))]
      else case items schema of
             None \<Rightarrow> []
           | Some it \<Rightarrow> if truthy (ref it) then [dtoImport (the (ref it))] else [])"

definition collectProperties :: "SchemaObject \<Rightarrow> ModelProperty list \<times> ImportStatement list" where
  "collectProperties definition =
     (case properties definition of
        None \<Rightarrow> ([], [])
      | Some entries \<Rightarrow>
          (map (\<lambda>(propName, schema). collectProperty definition propName schema) entries,
           concat (map (\<lambda>(propName, schema). referenceImports schema) entries)))"

definition generateInterfaceDefinition ::
  "string \<Rightarrow> ModelProperty list \<Rightarrow> CodeBuilder \<Rightarrow> CodeBuilder" where
  "generateInterfaceDefinition mname props b =
     createInterface mname (Some (''Interface representing a '' @ mname @ '' model''))
       (fold (\<lambda>prop. createInterfaceProperty (propertyName prop) (type_m prop)
                        (isOptional_m prop) (description_m prop)) props) b"

definition typeProperty :: "ConfigOptions \<Rightarrow> ModelProperty \<Rightarrow> CodeBuilder \<Rightarrow> CodeBuilder" where
  "typeProperty opts prop b =
     appendLine (propertyName prop @ (if isOptional_m prop then ''?'' else []) @ '': '' @ type_m prop @ '';'')
       (if truthy (description_m prop) \<and> generateJsDoc opts
        then createJSDocBlock (descriptionLines (description_m prop)) [] b else b)"

definition generateTypeDefinition ::
  "ConfigOptions \<Rightarrow> string \<Rightarrow> ModelProperty list \<Rightarrow> string \<Rightarrow> CodeBuilder \<Rightarrow> CodeBuilder" where
  "generateTypeDefinition opts mname props baseType b =
     (if props = []
      then createTypeAlias mname baseType (Some (''Type representing a '' @ mname @ '' model'')) b
      else appendEmptyLine
             (appendLine ''};''
               (indentBy (-1)
                 (fold (typeProperty opts) props
                   (indentBy 1
                     (appendLine (''export type '' @ mname @ '' = '' @ baseType @ '' & {'')
                       (createJSDocBlock (Some [''Type representing a '' @ mname @ '' model'']) [] b)))))))"

text \<open>
  The file the generator writes for one model (header, imports, declaration) and the
  output record that holds it.
\<close>

definition dtoContent :: "nat \<Rightarrow> ConfigOptions \<Rightarrow> string \<Rightarrow> SchemaObject \<Rightarrow> string list" where
  "dtoContent indentSize opts mname definition =
     (let inheritance = (if allOf definition \<noteq> None then processInheritance definition else ([], []));
          collected = collectProperties definition;
          imports = fst inheritance @ snd collected;
          b1 = addImportStatements imports mname (addFileHeader (newCodeBuilder indentSize));
          b2 = (if allOf definition \<noteq> None
                then generateTypeDefinition opts mname (fst collected) (snd inheritance) b1
                else generateInterfaceDefinition mname (fst collected) b1)
      in build b2)"

definition dtoOutput :: "nat \<Rightarrow> ConfigOptions \<Rightarrow> ModelPathAndName \<Rightarrow> SchemaObject \<Rightarrow> GeneratedOutput" where
  "dtoOutput indentSize opts pn definition =
     \<lparr>content = dtoContent indentSize opts (modelName pn) definition,
      path = buildFilePath (API_OUTPUT_PATH @ ''/'') ''dto''
               (createCorrectPath (modelPath pn)) (modelName pn),
      filename = modelName pn\<rparr>"

text \<open>
  The generator's two sets and the diagnostics it has written with \<^verbatim>\<open>console.warn\<close>.
\<close>

record DTOGenerator =
  processedRefs_g :: "string set"
  processingStack :: "string set"
  warnings :: "string list"

definition newDTOGenerator :: DTOGenerator where
  "newDTOGenerator = \<lparr>processedRefs_g = {}, processingStack = {}, warnings = []\<rparr>"

text \<open>
  \<^verbatim>\<open>buildOutput\<close> calls itself for every parent of the model. The argument \<open>fuel\<close>
  bounds the depth of these calls: \<open>None\<close> is the bound exhausted, and \<open>generate\<close> starts
  with the number of names a lookup can find, which is shown below to be enough. The inner
  call's output is dropped, as in the source, which keeps its effect on the sets only.
\<close>

fun buildOutput ::
  "nat \<Rightarrow> nat \<Rightarrow> (string \<times> SchemaObject) list \<Rightarrow> ConfigOptions \<Rightarrow> string \<Rightarrow> DTOGenerator
     \<Rightarrow> (GeneratedOutput option \<times> DTOGenerator) option"
and buildParents ::
  "nat \<Rightarrow> nat \<Rightarrow> (string \<times> SchemaObject) list \<Rightarrow> ConfigOptions \<Rightarrow> ImportStatement list \<Rightarrow> DTOGenerator
     \<Rightarrow> DTOGenerator option" where
  "buildOutput indentSize fuel definitions opts modelRef g =
     (if modelRef \<in> processedRefs_g g then Some (None, g)
      else if modelRef \<in> processingStack g
      then Some (None, g\<lparr>processedRefs_g := insert modelRef (processedRefs_g g)\<rparr>)
      else case lookupDefinition definitions modelRef of
             None \<Rightarrow>
               Some (None, g\<lparr>warnings := warnings g @ [''Definition not found for model: '' @ modelRef]\<rparr>)
           | Some definition \<Rightarrow>
               (case fuel of
                  0 \<Rightarrow> None
                | Suc fuel' \<Rightarrow>
                    (let pn = getModelPathAndName modelRef ''.'';
                         g1 = g\<lparr>processingStack := insert modelRef (processingStack g),
                                processedRefs_g := insert modelRef (processedRefs_g g)\<rparr>;
                         inheritance = (if allOf definition \<noteq> None
                                        then processInheritance definition else ([], []))
                     in case buildParents indentSize fuel' definitions opts (fst inheritance) g1 of
                          None \<Rightarrow> None
                        | Some g2 \<Rightarrow>
                            Some (Some (dtoOutput indentSize opts pn definition),
                                  g2\<lparr>processingStack := processingStack g2 - {modelRef}\<rparr>))))"
| "buildParents indentSize fuel definitions opts [] g = Some g"
| "buildParents indentSize fuel definitions opts (imp # imps) g =
     (case buildOutput indentSize fuel definitions opts (name_i imp) g of
        None \<Rightarrow> None
      | Some (out, g') \<Rightarrow> buildParents indentSize fuel definitions opts imps g')"

text \<open>
  \<^verbatim>\<open>generate\<close>: \<^verbatim>\<open>flatMap\<close> over the model references, one record for every call of
  \<^verbatim>\<open>buildOutput\<close> that returns one.
\<close>

fun generateFrom ::
  "nat \<Rightarrow> nat \<Rightarrow> (string \<times> SchemaObject) list \<Rightarrow> ConfigOptions \<Rightarrow> string list \<Rightarrow> DTOGenerator
     \<Rightarrow> (GeneratedOutput list \<times> DTOGenerator) option" where
  "generateFrom indentSize fuel definitions opts [] g = Some ([], g)"
| "generateFrom indentSize fuel definitions opts (p # ps) g =
     (case buildOutput indentSize fuel definitions opts p g of
        None \<Rightarrow> None
      | Some (out, g') \<Rightarrow>
          (case generateFrom indentSize fuel definitions opts ps g' of
             None \<Rightarrow> None
           | Some (outs, g'') \<Rightarrow> Some ((case out of None \<Rightarrow> [] | Some r \<Rightarrow> [r]) @ outs, g'')))"

definition generate ::
  "nat \<Rightarrow> (string \<times> SchemaObject) list \<Rightarrow> ConfigOptions \<Rightarrow> string list
     \<Rightarrow> (GeneratedOutput list \<times> DTOGenerator) option" where
  "generate indentSize definitions opts paths =
     generateFrom indentSize (nameCount definitions) definitions opts paths newDTOGenerator"

section \<open>The specification document (types/ISchema.ts)\<close>

text \<open>
  The rest of the document's interfaces, with the fields the generator reads. A map from
  strings (paths, status codes, media types, model names) is the list of its entries in
  iteration order.
\<close>

record ParameterObject =
  name_p :: string
  in_p :: string
  description_p :: "string option"
  required_p :: "bool option"
  schema_p :: "SchemaObject option"
  type_p :: "string option"

record MediaTypeObject =
  schema_m :: "SchemaObject option"

record RequestBodyObject =
  content_rb :: "(string \<times> MediaTypeObject) list option"

record ResponseObject =
  content_r :: "(string \<times> MediaTypeObject) list option"
  schema_r :: "SchemaObject option"

record OperationObject =
  summary :: "string option"
  description_o :: "string option"
  operationId :: "string option"
  parameters_o :: "ParameterObject list option"
  requestBody :: "RequestBodyObject option"
  responses :: "(string \<times> ResponseObject) list"

record PathItemObject =
  get :: "OperationObject option"
  post :: "OperationObject option"
  put :: "OperationObject option"
  delete :: "OperationObject option"
  parameters_pi :: "ParameterObject list option"

record ComponentsObject =
  schemas :: "(string \<times> SchemaObject) list"

record OpenAPIDocument =
  openapi :: "string option"
  paths :: "(string \<times> PathItemObject) list"
  basePath :: "string option"
  servers :: "string list option"
  definitions :: "(string \<times> SchemaObject) list option"
  components :: "ComponentsObject option"

definition isOpenApi3 :: "OpenAPIDocument \<Rightarrow> bool" where
  "isOpenApi3 spec = truthy (openapi spec)"

definition getDefinitions :: "OpenAPIDocument \<Rightarrow> (string \<times> SchemaObject) list" where
  "getDefinitions spec =
     (if isOpenApi3 spec
      then (case components spec of None \<Rightarrow> [] | Some c \<Rightarrow> schemas c)
      else (case definitions spec of None \<Rightarrow> [] | Some d \<Rightarrow> d))"

definition getApiBasePath :: "OpenAPIDocument \<Rightarrow> string" where
  "getApiBasePath api =
     (case servers api of
        Some (url # others) \<Rightarrow> if truthy (openapi api) then url else orElse (basePath api) []
      | _ \<Rightarrow> orElse (basePath api) [])"

section \<open>utils/string.ts: the path filter\<close>

text \<open>
  \<^verbatim>\<open>new RegExp(source).test(text)\<close> belongs to the host language. The generator takes it
  as a function of the pattern source and the text, \<open>None\<close> when the constructor rejects
  the source; \<^verbatim>\<open>regexFilter\<close> is the source's own part: the anchors it puts around the
  pattern.
\<close>

type_synonym regExp = "string \<Rightarrow> string \<Rightarrow> bool option"

datatype error = SyntaxError string | TypeError string

definition regexFilter :: "regExp \<Rightarrow> string \<Rightarrow> string \<Rightarrow> bool option" where
  "regexFilter rx text pattern = rx (''^'' @ pattern @ ''$'') text"

section \<open>builder/APISpecParser.ts\<close>

text \<open>
  The parser's two sets. \<open>modelRefs\<close> keeps the order of insertion, in which
  \<^verbatim>\<open>Array.from\<close> lists a set; of \<open>processedRefs\<close> only membership is read.
\<close>

record APISpecParser =
  modelRefs :: "string list"
  processedRefs :: "string set"

definition addModelReference :: "string \<Rightarrow> APISpecParser \<Rightarrow> APISpecParser" where
  "addModelReference refName st =
     (if refName \<in> set (modelRefs st) then st else st\<lparr>modelRefs := modelRefs st @ [refName]\<rparr>)"

fun orEmpty :: "'a list option \<Rightarrow> 'a list" where
  "orEmpty None = []"
| "orEmpty (Some xs) = xs"

text \<open>
  The walk over a schema. Looking a referenced name up in the dictionary is the one step
  that leaves the schema at hand; the first argument bounds how many of these steps nest,
  and \<open>None\<close> is the bound exhausted (each call is smaller in the bound, or in the
  schema it visits). \<open>processSchemaList\<close> and \<open>processPropertyList\<close>
  are the two \<^verbatim>\<open>forEach\<close> loops of \<^verbatim>\<open>processCompositeSchema\<close>, and \<open>processAdditional\<close>
  its statement for \<^verbatim>\<open>additionalProperties\<close>, visited when it is a schema.
\<close>

lemma size_items: "items s = Some it \<Longrightarrow> size it < size s"
  by (cases s) auto

lemma size_composites:
  "size_list size (orEmpty (allOf s) @ orEmpty (oneOf s) @ orEmpty (anyOf s)) < size s"
  by (cases s; cases "allOf s"; cases "oneOf s"; cases "anyOf s") auto

lemma size_additional: "size_option size (additionalProperties s) < size s"
  by (cases s) auto

lemma size_properties:
  "properties s = Some entries \<Longrightarrow> size_list (size_prod (\<lambda>x. 0) size) entries < size s"
  by (cases s) auto

function (sequential) processSchema ::
  "nat \<Rightarrow> (string \<times> SchemaObject) list \<Rightarrow> SchemaObject \<Rightarrow> APISpecParser \<Rightarrow> APISpecParser option"
and processCompositeSchema ::
  "nat \<Rightarrow> (string \<times> SchemaObject) list \<Rightarrow> SchemaObject \<Rightarrow> APISpecParser \<Rightarrow> APISpecParser option"
and processSchemaList ::
  "nat \<Rightarrow> (string \<times> SchemaObject) list \<Rightarrow> SchemaObject list \<Rightarrow> APISpecParser \<Rightarrow> APISpecParser option"
and processPropertyList ::
  "nat \<Rightarrow> (string \<times> SchemaObject) list \<Rightarrow> (string \<times> SchemaObject) list \<Rightarrow> APISpecParser
     \<Rightarrow> APISpecParser option"
and processAdditional ::
  "nat \<Rightarrow> (string \<times> SchemaObject) list \<Rightarrow> AdditionalProperties option \<Rightarrow> APISpecParser
     \<Rightarrow> APISpecParser option"
and processReferencedSchema ::
  "nat \<Rightarrow> (string \<times> SchemaObject) list \<Rightarrow> string \<Rightarrow> APISpecParser \<Rightarrow> APISpecParser option" where
  "processSchema fuel defs schema st =
     (if truthy (ref schema) then
        (let refPath = extractRefName (the (ref schema));
             st1 = addModelReference refPath st
         in if refPath \<notin> processedRefs st1
            then processReferencedSchema fuel defs refPath st1
            else Some st1)
      else processCompositeSchema fuel defs schema st)"
| "processCompositeSchema fuel defs schema st =
     (if sType schema = Some ''array'' \<and> items schema \<noteq> None
      then processSchema fuel defs (the (items schema)) st
      else
          (case processSchemaList fuel defs
                  (orEmpty (allOf schema) @ orEmpty (oneOf schema) @ orEmpty (anyOf schema)) st of
             None \<Rightarrow> None
           | Some st1 \<Rightarrow>
               (case processAdditional fuel defs (additionalProperties schema) st1 of
                  None \<Rightarrow> None
                | Some st2 \<Rightarrow>
                    (case properties schema of
                       None \<Rightarrow> Some st2
                     | Some entries \<Rightarrow> processPropertyList fuel defs entries st2))))"
| "processSchemaList fuel defs [] st = Some st"
| "processSchemaList fuel defs (subSchema # rest) st =
     (case processSchema fuel defs subSchema st of
        None \<Rightarrow> None
      | Some st' \<Rightarrow> processSchemaList fuel defs rest st')"
| "processPropertyList fuel defs [] st = Some st"
| "processPropertyList fuel defs ((propName, propSchema) # rest) st =
     (case processSchema fuel defs propSchema st of
        None \<Rightarrow> None
      | Some st' \<Rightarrow> processPropertyList fuel defs rest st')"
| "processAdditional fuel defs None st = Some st"
| "processAdditional fuel defs (Some (AdditionalFlag f)) st = Some st"
| "processAdditional fuel defs (Some (AdditionalSchema a)) st = processSchema fuel defs a st"
| "processReferencedSchema fuel defs refName st =
     (let st1 = st\<lparr>processedRefs := insert refName (processedRefs st)\<rparr>
      in case lookupDefinition defs refName of
           None \<Rightarrow> Some st1
         | Some schema \<Rightarrow>
             (case fuel of 0 \<Rightarrow> None | Suc fuel' \<Rightarrow> processSchema fuel' defs schema st1))"
  by pat_completeness auto
termination
proof (relation "inv_image (less_than <*lex*> less_than)
    (case_sum
       (case_sum (\<lambda>(f, d, s, st). (f, 2 * size s + 2))
          (case_sum (\<lambda>(f, d, s, st). (f, 2 * size s + 1))
                    (\<lambda>(f, d, xs, st). (f, 2 * size_list size xs + 1))))
       (case_sum (\<lambda>(f, d, es, st). (f, 2 * size_list (size_prod (\<lambda>x. 0) size) es + 1))
          (case_sum (\<lambda>(f, d, a, st). (f, 2 * size_option size a))
                    (\<lambda>(f, d, r, st). (f, 0)))))", goal_cases)
  case 1 show ?case by (intro wf_inv_image wf_lex_prod wf_less_than)
next
  case 2 show ?case by simp
next
  case 3 show ?case by simp
next
  case (4 fuel defs schema st)
  then obtain it where "items schema = Some it" by auto
  from size_items[OF this] this show ?case by simp
next
  case (5 fuel defs schema st)
  from size_composites[of schema] show ?case by simp
next
  case (6 fuel defs schema st x2)
  from size_additional[of schema] show ?case by simp
next
  case (7 fuel defs schema st x2 x2a x2b)
  from size_properties[OF 7(4)] show ?case by simp
next
  case 8 show ?case by simp
next
  case 9 show ?case by simp
next
  case 10 show ?case by simp
next
  case 11 show ?case by simp
next
  case 12 show ?case by simp
next
  case 13 then show ?case by simp
qed

text \<open>
  A \<^verbatim>\<open>forEach\<close> whose callback changes the parser: the rounds run in order, and a round
  that exhausts the bound ends the loop.
\<close>

fun forEach :: "('a \<Rightarrow> 's \<Rightarrow> 's option) \<Rightarrow> 'a list \<Rightarrow> 's \<Rightarrow> 's option" where
  "forEach f [] st = Some st"
| "forEach f (x # xs) st = (case f x st of None \<Rightarrow> None | Some st' \<Rightarrow> forEach f xs st')"

definition processOptionalSchema ::
  "nat \<Rightarrow> (string \<times> SchemaObject) list \<Rightarrow> SchemaObject option \<Rightarrow> APISpecParser \<Rightarrow> APISpecParser option" where
  "processOptionalSchema fuel defs schema st =
     (case schema of None \<Rightarrow> Some st | Some s \<Rightarrow> processSchema fuel defs s st)"

definition processParameter ::
  "nat \<Rightarrow> (string \<times> SchemaObject) list \<Rightarrow> ParameterObject \<Rightarrow> APISpecParser \<Rightarrow> APISpecParser option" where
  "processParameter fuel defs param st = processOptionalSchema fuel defs (schema_p param) st"

definition processContent ::
  "nat \<Rightarrow> (string \<times> SchemaObject) list \<Rightarrow> (string \<times> MediaTypeObject) list \<Rightarrow> APISpecParser
     \<Rightarrow> APISpecParser option" where
  "processContent fuel defs entries st =
     forEach (\<lambda>(mediaType, media). processOptionalSchema fuel defs (schema_m media)) entries st"

definition processRequestBody ::
  "nat \<Rightarrow> (string \<times> SchemaObject) list \<Rightarrow> RequestBodyObject \<Rightarrow> APISpecParser \<Rightarrow> APISpecParser option" where
  "processRequestBody fuel defs body st = processContent fuel defs (orEmpty (content_rb body)) st"

definition processRequestModels ::
  "nat \<Rightarrow> (string \<times> SchemaObject) list \<Rightarrow> bool \<Rightarrow> PathItemObject \<Rightarrow> OperationObject \<Rightarrow> APISpecParser
     \<Rightarrow> APISpecParser option" where
  "processRequestModels fuel defs oa3 pathItem operation st =
     (case forEach (processParameter fuel defs)
             (orEmpty (parameters_pi pathItem) @ orEmpty (parameters_o operation)) st of
        None \<Rightarrow> None
      | Some st1 \<Rightarrow>
          (case requestBody operation of
             Some body \<Rightarrow> if oa3 then processRequestBody fuel defs body st1 else Some st1
           | None \<Rightarrow> Some st1))"

definition processResponse ::
  "nat \<Rightarrow> (string \<times> SchemaObject) list \<Rightarrow> bool \<Rightarrow> ResponseObject \<Rightarrow> APISpecParser
     \<Rightarrow> APISpecParser option" where
  "processResponse fuel defs oa3 response st =
     (if oa3 \<and> content_r response \<noteq> None
      then processContent fuel defs (orEmpty (content_r response)) st
      else processOptionalSchema fuel defs (schema_r response) st)"

definition processResponseModels ::
  "nat \<Rightarrow> (string \<times> SchemaObject) list \<Rightarrow> bool \<Rightarrow> OperationObject \<Rightarrow> APISpecParser
     \<Rightarrow> APISpecParser option" where
  "processResponseModels fuel defs oa3 operation st =
     forEach (\<lambda>(status, response). processResponse fuel defs oa3 response) (responses operation) st"

definition processOperation ::
  "nat \<Rightarrow> (string \<times> SchemaObject) list \<Rightarrow> bool \<Rightarrow> PathItemObject \<Rightarrow> OperationObject \<Rightarrow> APISpecParser
     \<Rightarrow> APISpecParser option" where
  "processOperation fuel defs oa3 pathItem operation st =
     (case processRequestModels fuel defs oa3 pathItem operation st of
        None \<Rightarrow> None
      | Some st1 \<Rightarrow> processResponseModels fuel defs oa3 operation st1)"

definition operationsOf :: "PathItemObject \<Rightarrow> OperationObject list" where
  "operationsOf pathItem =
     concat (map (\<lambda>op. case op of None \<Rightarrow> [] | Some operation \<Rightarrow> [operation])
                 [get pathItem, post pathItem, put pathItem, delete pathItem])"

definition processPathOperations ::
  "nat \<Rightarrow> (string \<times> SchemaObject) list \<Rightarrow> bool \<Rightarrow> PathItemObject \<Rightarrow> APISpecParser
     \<Rightarrow> APISpecParser option" where
  "processPathOperations fuel defs oa3 pathItem st =
     forEach (processOperation fuel defs oa3 pathItem) (operationsOf pathItem) st"

text \<open>
  The paths a pattern selects. The filter runs over all the paths before the first of
  them is processed, so a pattern the \<^verbatim>\<open>RegExp\<close> constructor rejects raises before the
  parser has changed. A missing or empty pattern selects every path.
\<close>

fun filterPaths ::
  "regExp \<Rightarrow> string \<Rightarrow> (string \<times> PathItemObject) list \<Rightarrow> error + (string \<times> PathItemObject) list" where
  "filterPaths rx pattern [] = Inr []"
| "filterPaths rx pattern ((p, item) # rest) =
     (case regexFilter rx p pattern of
        None \<Rightarrow> Inl (SyntaxError (''^'' @ pattern @ ''$''))
      | Some matched \<Rightarrow>
          (case filterPaths rx pattern rest of
             Inl e \<Rightarrow> Inl e
           | Inr kept \<Rightarrow> Inr (if matched then (p, item) # kept else kept)))"

definition pathsToProcess ::
  "regExp \<Rightarrow> OpenAPIDocument \<Rightarrow> string option \<Rightarrow> error + (string \<times> PathItemObject) list" where
  "pathsToProcess rx spec pathPattern =
     (if truthy pathPattern then filterPaths rx (the pathPattern) (paths spec)
      else Inr (paths spec))"

definition processMatchingPaths ::
  "regExp \<Rightarrow> nat \<Rightarrow> OpenAPIDocument \<Rightarrow> string option \<Rightarrow> APISpecParser
     \<Rightarrow> (error + APISpecParser) option" where
  "processMatchingPaths rx fuel spec pathPattern st =
     (case pathsToProcess rx spec pathPattern of
        Inl e \<Rightarrow> Some (Inl e)
      | Inr selected \<Rightarrow>
          map_option Inr
            (forEach (\<lambda>(p, pathItem).
                        processPathOperations fuel (getDefinitions spec) (isOpenApi3 spec) pathItem)
                     selected st))"

text \<open>
  \<^verbatim>\<open>discoverModelPaths\<close> clears the two sets, walks the selected paths and lists the
  names found. The result is \<open>None\<close> if the walk exhausts its bound, \<open>Some (Inl e)\<close> if
  the pattern raises, and \<open>Some (Inr names)\<close> otherwise. The walk starts with the number
  of names a lookup can find as its bound.
\<close>

definition discoverModelPaths ::
  "regExp \<Rightarrow> OpenAPIDocument \<Rightarrow> string option \<Rightarrow> (error + string list) option" where
  "discoverModelPaths rx spec pathPattern =
     map_option (map_sum id modelRefs)
       (processMatchingPaths rx (nameCount (getDefinitions spec)) spec pathPattern
          \<lparr>modelRefs = [], processedRefs = {}\<rparr>)"

section \<open>Endpoint descriptors (types/IGenerator.ts)\<close>

text \<open>
  A parameter's type is a primitive name (the legacy dialect) or a type with its format.
  \<open>requestBody_e\<close> is the field the write-style generator adds to the descriptor.
\<close>

datatype ParameterType = TypeName string | TypeFormat string "string option"

record EndpointParameter =
  name_ep :: string
  type_ep :: ParameterType
  isOptional_ep :: bool
  description_ep :: "string option"
  in_ep :: string

record EndpointDefinition =
  path_e :: string
  method_e :: string
  parameters_e :: "EndpointParameter list"
  responseType :: "string list"
  operationId_e :: "string option"
  summary_e :: "string option"
  description_e :: "string option"
  requestBody_e :: "string option"

fun firstOf :: "'a list \<Rightarrow> 'a option" where
  "firstOf [] = None"
| "firstOf (x # xs) = Some x"

section \<open>builder/generators/GETRequestGenerator.ts\<close>



text \<open>
  \<^verbatim>\<open>extractResponseTypes\<close>, the same in both request generators: one name for every
  media type of a response with content (current dialect), else one for the response's
  own schema, else \<^verbatim>\<open>void\<close>.
\<close>

definition responseTypesOf :: "bool \<Rightarrow> ResponseObject \<Rightarrow> string list" where
  "responseTypesOf oa3 resp =
     (if oa3 \<and> content_r resp \<noteq> None
      then map (\<lambda>(mediaType, media). normalizeSchemaType (schema_m media)) (orEmpty (content_r resp))
      else if schema_r resp \<noteq> None then [normalizeSchemaType (schema_r resp)]
      else [''void''])"

definition extractResponseTypes :: "bool \<Rightarrow> OperationObject \<Rightarrow> string list" where
  "extractResponseTypes oa3 operation =
     concat (map (\<lambda>(status, resp). responseTypesOf oa3 resp) (responses operation))"


definition responseDTOName :: "string option \<Rightarrow> string option" where
  "responseDTOName respType =
     (case respType of
        None \<Rightarrow> None
      | Some t \<Rightarrow> if t \<noteq> [] \<and> t \<noteq> ''void'' \<and> \<not> isPrimitiveType t
                  then Some (modelName (getModelPathAndName t ''.'')) else None)"

definition baseImportOf :: "bool \<Rightarrow> ImportStatement" where
  "baseImportOf isPdf =
     (let baseImport = (if isPdf then ''PdfWebServiceRequest'' else ''JsonWebServiceRequest'')
      in \<lparr>name_i = baseImport, path_i = ''data-access/data-service/'' @ baseImport,
          isDefault = Some True\<rparr>)"






definition constructorMethod :: "string \<Rightarrow> string \<Rightarrow> string \<Rightarrow> CodeBuilder \<Rightarrow> CodeBuilder" where
  "constructorMethod verb basePath' p b =
     appendEmptyLine
       (createMethod ''constructor'' [] None None
          (appendLine (''super('' @ [CHR 0x27] @ verb @ [CHR 0x27] @ '', '' @ [CHR 0x27]
                       @ basePath' @ p @ [CHR 0x27] @ '');''))
          b)"

definition baseClassOf :: "bool \<Rightarrow> string option \<Rightarrow> string" where
  "baseClassOf isPdf dtoName =
     (if isPdf then ''PdfWebServiceRequest''
      else ''JsonWebServiceRequest<'' @ (case dtoName of None \<Rightarrow> ''any'' | Some n \<Rightarrow> n) @ ''>'')"


definition requestFilePath :: "string \<Rightarrow> string \<Rightarrow> string \<Rightarrow> string" where
  "requestFilePath basePath' epPath className =
     (let apiName = substringFrom basePath' (lastIndexOf basePath' ''/'' + 1)
      in buildFilePath (API_OUTPUT_PATH @ ''/'') (''request/'' @ createCorrectPath apiName)
           (createCorrectPath epPath) (className @ ''WebServiceRequest''))"



section \<open>builder/generators/POSTRequestGenerator.ts\<close>

text \<open>
  \<^verbatim>\<open>extractRequestBodyType\<close>: the name behind the first media type whose schema is a
  reference (current dialect), or behind the first body parameter whose schema is one
  (legacy dialect). A request body without \<^verbatim>\<open>content\<close> makes \<^verbatim>\<open>Object.values\<close> raise.
\<close>

fun firstReference :: "SchemaObject option list \<Rightarrow> string option" where
  "firstReference [] = None"
| "firstReference (schema # rest) =
     (case schema of
        None \<Rightarrow> firstReference rest
      | Some s \<Rightarrow> if truthy (ref s) then Some (extractRefName (the (ref s)))
                  else firstReference rest)"

definition extractRequestBodyType :: "bool \<Rightarrow> OperationObject \<Rightarrow> error + string option" where
  "extractRequestBodyType oa3 operation =
     (if oa3 then
        (case requestBody operation of
           None \<Rightarrow> Inr None
         | Some body \<Rightarrow>
             (case content_rb body of
                None \<Rightarrow> Inl (TypeError ''Cannot convert undefined or null to object'')
              | Some entries \<Rightarrow>
                  Inr (firstReference (map (\<lambda>(mediaType, media). schema_m media) entries))))
      else Inr (firstReference
                  (map schema_p (filter (\<lambda>param. in_p param = ''body'')
                                        (orEmpty (parameters_o operation))))))"

fun resolveEntities_post ::
  "regExp \<Rightarrow> bool \<Rightarrow> string \<Rightarrow> (string \<times> PathItemObject) list \<Rightarrow> error + EndpointDefinition list" where
  "resolveEntities_post rx oa3 pathPattern [] = Inr []"
| "resolveEntities_post rx oa3 pathPattern ((p, item) # rest) =
     (case post item of
        None \<Rightarrow> resolveEntities_post rx oa3 pathPattern rest
      | Some operation \<Rightarrow>
          (case regexFilter rx p pathPattern of
             None \<Rightarrow> Inl (SyntaxError (''^'' @ pathPattern @ ''$''))
           | Some matched \<Rightarrow>
               if \<not> matched then resolveEntities_post rx oa3 pathPattern rest
               else (case extractRequestBodyType oa3 operation of
                       Inl e \<Rightarrow> Inl e
                     | Inr body \<Rightarrow>
                         (case resolveEntities_post rx oa3 pathPattern rest of
                            Inl e \<Rightarrow> Inl e
                          | Inr endpoints \<Rightarrow>
                              Inr (\<lparr>path_e = p, method_e = ''post'', parameters_e = [],
                                    responseType = extractResponseTypes oa3 operation,
                                    operationId_e = operationId operation,
                                    summary_e = summary operation,
                                    description_e = description_o operation,
                                    requestBody_e = body\<rparr> # endpoints)))))"

definition generateImportsWithPayload :: "EndpointDefinition \<Rightarrow> bool \<Rightarrow> ImportStatement list" where
  "generateImportsWithPayload endpoint isPdf =
     baseImportOf isPdf #
     (if truthy (requestBody_e endpoint) then [modelImport (the (requestBody_e endpoint))] else [])
     @ (case firstOf (responseType endpoint) of
          None \<Rightarrow> []
        | Some respType \<Rightarrow>
            if respType \<noteq> [] \<and> respType \<noteq> ''void'' \<and> \<not> isPrimitiveType respType
               \<and> (\<not> truthy (requestBody_e endpoint)
                   \<or> modelName (getModelPathAndName (the (requestBody_e endpoint)) ''.'')
                        \<noteq> modelName (getModelPathAndName respType ''.''))
            then [modelImport respType] else [])"

text \<open>
  The body-population routine: one statement for every key of the payload schema's
  properties, in the order of \<^verbatim>\<open>Object.keys\<close>; none when the dictionary has no entry for
  the payload type or the entry has no properties.
\<close>

definition setIfNotEmpty :: "string \<Rightarrow> string" where
  "setIfNotEmpty propName =
     ''this.setIfNotEmpty(body, '' @ [CHR 0x27] @ propName @ [CHR 0x27] @ '', this.data.''
     @ propName @ '');''"

definition copiedProperties :: "(string \<times> SchemaObject) list \<Rightarrow> string \<Rightarrow> string list" where
  "copiedProperties defs requestBodyType =
     (case lookupDefinition defs requestBodyType of
        None \<Rightarrow> []
      | Some schema \<Rightarrow> map fst (orEmpty (properties schema)))"

definition generateSetupBodyMethod ::
  "(string \<times> SchemaObject) list \<Rightarrow> string \<Rightarrow> CodeBuilder \<Rightarrow> CodeBuilder" where
  "generateSetupBodyMethod defs requestBodyType b =
     createMethod ''setupBody'' [(''body'', ''Record<string, any>'')] (Some ''void'')
       (Some ''Sets up request body'')
       (fold (\<lambda>propName. appendLine (setIfNotEmpty propName))
             (copiedProperties defs requestBodyType))
       b"

definition generateWithPayloadClass ::
  "ConfigOptions \<Rightarrow> (string \<times> SchemaObject) list \<Rightarrow> EndpointDefinition \<Rightarrow> string \<Rightarrow> string \<Rightarrow> bool
     \<Rightarrow> CodeBuilder \<Rightarrow> CodeBuilder" where
  "generateWithPayloadClass opts defs endpoint className basePath' isPdf b =
     appendLine (''export default '' @ className @ ''WebServiceRequest;'')
       (appendEmptyLine
          (createClass (className @ ''WebServiceRequest'')
             (Some (baseClassOf isPdf (responseDTOName (firstOf (responseType endpoint)))))
             (Some (''Request class for '' @ path_e endpoint))
             (generateSetupBodyMethod defs (the (requestBody_e endpoint))
              \<circ> constructorMethod ''POST'' basePath' (path_e endpoint)
              \<circ> appendEmptyLine
              \<circ> createProperty ''data''
                  (modelName (getModelPathAndName (the (requestBody_e endpoint)) ''.''))
                  (\<not> useStrictTypes opts) (Some ''Request data''))
             b))"

definition buildEndpointWithPayload ::
  "nat \<Rightarrow> ConfigOptions \<Rightarrow> (string \<times> SchemaObject) list \<Rightarrow> EndpointDefinition \<Rightarrow> string \<Rightarrow> GeneratedOutput" where
  "buildEndpointWithPayload indentSize opts defs endpoint basePath' =
     (let pn = getModelPathAndName (path_e endpoint) ''/'';
          className = modelName pn;
          isPdf = isPdfResponse (firstOf (responseType endpoint));
          b1 = addImportStatements (generateImportsWithPayload endpoint isPdf) className
                 (addFileHeader (newCodeBuilder indentSize));
          b2 = generateWithPayloadClass opts defs endpoint className basePath' isPdf b1
      in \<lparr>content = build b2,
          path = requestFilePath basePath' (modelPath pn) className,
          filename = className @ ''WebServiceRequest''\<rparr>)"

definition buildSimpleEndpoint :: "nat \<Rightarrow> ConfigOptions \<Rightarrow> EndpointDefinition \<Rightarrow> string \<Rightarrow> GeneratedOutput" where
  "buildSimpleEndpoint indentSize opts endpoint basePath' =
     (let pn = getModelPathAndName (path_e endpoint) ''/'';
          className = modelName pn;
          isPdf = isPdfResponse (firstOf (responseType endpoint));
          baseImport = name_i (baseImportOf isPdf);
          b1 = createImports [baseImportOf isPdf] (addFileHeader (newCodeBuilder indentSize));
          baseClass = (if isPdf then baseImport
                       else baseImport @ ''<''
                            @ (case firstOf (responseType endpoint) of
                                 None \<Rightarrow> ''any''
                               | Some t \<Rightarrow> if t = [] then ''any'' else t)
                            @ ''>'');
          b2 = createClass (className @ ''WebServiceRequest'') (Some baseClass)
                 (Some (''Request class for '' @ path_e endpoint))
                 (createMethod ''setupBody'' [(''body'', ''Record<string, any>'')]
                    (Some ''void'') (Some ''Sets up request body'') id
                  \<circ> constructorMethod ''POST'' basePath' (path_e endpoint))
                 b1;
          b3 = appendLine (''export default '' @ className @ ''WebServiceRequest;'')
                 (appendEmptyLine b2)
      in \<lparr>content = build b3,
          path = requestFilePath basePath' (modelPath pn) className,
          filename = className @ ''WebServiceRequest''\<rparr>)"

definition buildOutput_post ::
  "nat \<Rightarrow> ConfigOptions \<Rightarrow> (string \<times> SchemaObject) list \<Rightarrow> EndpointDefinition \<Rightarrow> string \<Rightarrow> GeneratedOutput" where
  "buildOutput_post indentSize opts defs endpoint basePath' =
     (if truthy (requestBody_e endpoint)
      then buildEndpointWithPayload indentSize opts defs endpoint basePath'
      else buildSimpleEndpoint indentSize opts endpoint basePath')"

fun generate_post ::
  "nat \<Rightarrow> regExp \<Rightarrow> ConfigOptions \<Rightarrow> OpenAPIDocument \<Rightarrow> string list \<Rightarrow> error + GeneratedOutput list" where
  "generate_post indentSize rx opts spec [] = Inr []"
| "generate_post indentSize rx opts spec (pathPattern # patterns) =
     (case resolveEntities_post rx (isOpenApi3 spec) pathPattern (paths spec) of
        Inl e \<Rightarrow> Inl e
      | Inr endpoints \<Rightarrow>
          (case generate_post indentSize rx opts spec patterns of
             Inl e \<Rightarrow> Inl e
           | Inr outs \<Rightarrow>
               Inr (map (\<lambda>endpoint. buildOutput_post indentSize opts (getDefinitions spec) endpoint
                                      (getApiBasePath spec)) endpoints
                    @ outs)))"

section \<open>OpenAPICodeGenerator.ts: discovery, then the model emitter\<close>

text \<open>
  The first two steps of \<^verbatim>\<open>generateForPathPattern\<close>: the names the parser discovers for a
  pattern are handed, in the parser's order, to a fresh model emitter. The result is the
  list of the emitter's output records. The constructor of \<^verbatim>\<open>OpenAPICodeGenerator\<close> has
  set the builder's static indent size from the options before.
\<close>

definition dtoOutputs ::
  "regExp \<Rightarrow> ConfigOptions \<Rightarrow> OpenAPIDocument \<Rightarrow> string \<Rightarrow> (error + GeneratedOutput list) option" where
  "dtoOutputs rx opts apiSpec pathPattern =
     (case discoverModelPaths rx apiSpec (Some pathPattern) of
        None \<Rightarrow> None
      | Some (Inl e) \<Rightarrow> Some (Inl e)
      | Some (Inr modelPaths) \<Rightarrow>
          map_option (\<lambda>(outs, g). Inr outs) (generate (setDefaultIndentLevel (indentation opts)) (getDefinitions apiSpec) opts
             modelPaths))"

section \<open>A model of the host's regular expressions\<close>

text \<open>
  \<^verbatim>\<open>RegExp\<close> for the patterns made of literal characters, \<^verbatim>\<open>.\<close>, \<^verbatim>\<open>*\<close> after a single
  character, \<^verbatim>\<open>|\<close>, \<^verbatim>\<open>^\<close> and \<^verbatim>\<open>$\<close>, without flags: a pattern is a list of alternatives,
  an alternative a list of terms. A \<^verbatim>\<open>*\<close> with nothing to repeat is rejected by the
  constructor. Any other syntax (groups, classes, escapes, the other quantifiers) is
  outside the model, which gives \<open>None\<close> for it as well.
\<close>

datatype rxAtom = AnyChar | Lit char

datatype rxTerm = Bol | Eol | One rxAtom | Star rxAtom

definition unsupportedSyntax :: "char \<Rightarrow> bool" where
  "unsupportedSyntax c = (c \<in> set ''()[]{}+?|'' \<or> c = CHR 0x5C)"

definition atomOf :: "char \<Rightarrow> rxAtom" where
  "atomOf c = (if c = CHR ''.'' then AnyChar else Lit c)"

fun parseAlternative :: "string \<Rightarrow> rxTerm list option" where
  "parseAlternative [] = Some []"
| "parseAlternative [c] =
     (if c = CHR ''^'' then Some [Bol]
      else if c = CHR ''$'' then Some [Eol]
      else if c = CHR ''*'' \<or> unsupportedSyntax c then None
      else Some [One (atomOf c)])"
| "parseAlternative (c # d # cs) =
     (if c = CHR ''^'' then map_option ((#) Bol) (parseAlternative (d # cs))
      else if c = CHR ''$'' then map_option ((#) Eol) (parseAlternative (d # cs))
      else if c = CHR ''*'' \<or> unsupportedSyntax c then None
      else if d = CHR ''*'' then map_option ((#) (Star (atomOf c))) (parseAlternative cs)
      else map_option ((#) (One (atomOf c))) (parseAlternative (d # cs)))"

fun allOrNone :: "'a option list \<Rightarrow> 'a list option" where
  "allOrNone [] = Some []"
| "allOrNone (None # xs) = None"
| "allOrNone (Some x # xs) = map_option ((#) x) (allOrNone xs)"

definition parsePattern :: "string \<Rightarrow> rxTerm list list option" where
  "parsePattern source = allOrNone (map parseAlternative (split source ''|''))"

fun atomMatches :: "rxAtom \<Rightarrow> char \<Rightarrow> bool" where
  "atomMatches AnyChar c = (c \<noteq> CHR 0x0A \<and> c \<noteq> CHR 0x0D)"
| "atomMatches (Lit l) c = (c = l)"

text \<open>
  \<open>matchTerms ts atStart s\<close>: the terms match at the current position, where \<open>s\<close> is the
  rest of the text and \<open>atStart\<close> tells whether the position is index 0.
  \<open>matchAnywhere\<close> is \<^verbatim>\<open>test\<close>: some alternative matches at some position.
\<close>

fun matchTerms :: "rxTerm list \<Rightarrow> bool \<Rightarrow> string \<Rightarrow> bool" where
  "matchTerms [] atStart s = True"
| "matchTerms (Bol # ts) atStart s = (atStart \<and> matchTerms ts atStart s)"
| "matchTerms (Eol # ts) atStart s = (s = [] \<and> matchTerms ts atStart s)"
| "matchTerms (One a # ts) atStart [] = False"
| "matchTerms (One a # ts) atStart (c # cs) = (atomMatches a c \<and> matchTerms ts False cs)"
| "matchTerms (Star a # ts) atStart [] = matchTerms ts atStart []"
| "matchTerms (Star a # ts) atStart (c # cs) =
     (matchTerms ts atStart (c # cs) \<or> (atomMatches a c \<and> matchTerms (Star a # ts) False cs))"

fun matchAnywhere :: "rxTerm list list \<Rightarrow> bool \<Rightarrow> string \<Rightarrow> bool" where
  "matchAnywhere alts atStart [] = list_ex (\<lambda>ts. matchTerms ts atStart []) alts"
| "matchAnywhere alts atStart (c # cs) =
     (list_ex (\<lambda>ts. matchTerms ts atStart (c # cs)) alts \<or> matchAnywhere alts False cs)"

definition jsRegExp :: regExp where
  "jsRegExp source text = map_option (\<lambda>alts. matchAnywhere alts True text) (parsePattern source)"

text \<open>
  What the specification asks of a filter: the whole text, from its first character to its
  last, matches the pattern, that is, one of the pattern's alternatives.
\<close>

definition matchesWhole :: "string \<Rightarrow> string \<Rightarrow> bool option" where
  "matchesWhole pattern text =
     map_option (list_ex (\<lambda>ts. matchTerms (ts @ [Eol]) True text)) (parsePattern pattern)"

section \<open>Properties of the builder\<close>

text \<open>
  \<open>indentOf\<close> is the indentation the builder puts before a line. \<open>growsTo b b'\<close>: the
  builder \<open>b'\<close> has the lines of \<open>b\<close>, then maybe more, and the same indentation. Every
  operation of the builder that the generators use, but \<^verbatim>\<open>indentBy\<close>, grows the builder.
\<close>

definition indentOf :: "CodeBuilder \<Rightarrow> string" where
  "indentOf b = concat (replicate (indentLevel b) (indentString b))"

definition growsTo :: "CodeBuilder \<Rightarrow> CodeBuilder \<Rightarrow> bool" where
  "growsTo b b' =
     (indentLevel b' = indentLevel b \<and> indentString b' = indentString b
      \<and> (\<exists>ls. content_b b' = content_b b @ ls))"

lemma growsTo_refl: "growsTo b b"
  by (simp add: growsTo_def)

lemma growsTo_trans: "growsTo a b \<Longrightarrow> growsTo b c \<Longrightarrow> growsTo a c"
  by (auto simp: growsTo_def)

lemma growsTo_indentOf: "growsTo b b' \<Longrightarrow> indentOf b' = indentOf b"
  by (simp add: growsTo_def indentOf_def)

lemma growsTo_subset: "growsTo b b' \<Longrightarrow> set (content_b b) \<subseteq> set (content_b b')"
  by (auto simp: growsTo_def)

lemma growsTo_member: "growsTo b b' \<Longrightarrow> l \<in> set (content_b b) \<Longrightarrow> l \<in> set (content_b b')"
  by (auto simp: growsTo_def)

lemma appendLine_content: "content_b (appendLine l b) = content_b b @ [indentOf b @ l]"
  by (simp add: appendLine_def indentOf_def)

lemma appendLine_grows: "growsTo b (appendLine l b)"
  by (simp add: growsTo_def appendLine_def)

lemma appendLine_member: "indentOf b @ l \<in> set (content_b (appendLine l b))"
  by (simp add: appendLine_content)

lemma appendEmptyLine_grows: "growsTo b (appendEmptyLine b)"
  by (simp add: growsTo_def appendEmptyLine_def)

lemma fold_grows:
  "(\<And>x b. growsTo b (f x b)) \<Longrightarrow> growsTo b (fold f xs b)"
proof (induction xs arbitrary: b)
  case Nil show ?case by (simp add: growsTo_refl)
next
  case (Cons x xs)
  have "growsTo b (f x b)" by (rule Cons.prems)
  moreover have "growsTo (f x b) (fold f xs (f x b))" by (rule Cons.IH) (rule Cons.prems)
  ultimately show ?case by (simp add: growsTo_trans)
qed

lemma fold_member:
  assumes g: "\<And>x b. growsTo b (f x b)"
    and m: "\<And>b. indentOf b @ line x \<in> set (content_b (f x b))"
    and x: "x \<in> set xs"
  shows "indentOf b @ line x \<in> set (content_b (fold f xs b))"
  using x
proof (induction xs arbitrary: b)
  case Nil then show ?case by simp
next
  case (Cons y ys)
  show ?case
  proof (cases "x = y")
    case True
    have "growsTo (f x b) (fold f ys (f x b))" by (rule fold_grows) (rule g)
    from growsTo_member[OF this m] True show ?thesis by simp
  next
    case False
    with Cons.prems have "x \<in> set ys" by simp
    from Cons.IH[OF this, of "f y b"] growsTo_indentOf[OF g[of b y]] show ?thesis by simp
  qed
qed

lemma createJSDocBlock_grows: "growsTo b (createJSDocBlock d t b)"
proof -
  define b1 where "b1 = appendLine ''/**'' b"
  define b2 where "b2 = (case d of None \<Rightarrow> b1
      | Some descLines \<Rightarrow>
          (let b' = fold (\<lambda>line. appendLine ('' * '' @ line)) descLines b1
           in if t \<noteq> [] \<and> descLines \<noteq> [] then appendLine '' *'' b' else b'))"
  define b3 where "b3 = fold (\<lambda>(tag, text). appendLine ('' * @'' @ tag @ '' '' @ text)) t b2"
  have eq: "createJSDocBlock d t b = appendLine '' */'' b3"
    unfolding createJSDocBlock_def b3_def b2_def b1_def Let_def by (rule refl)
  have g1: "growsTo b b1" unfolding b1_def by (rule appendLine_grows)
  have descs: "\<And>ds. growsTo b1 (fold (\<lambda>line. appendLine ('' * '' @ line)) ds b1)"
    by (rule fold_grows) (rule appendLine_grows)
  have g2: "growsTo b1 b2"
  proof (cases d)
    case None then show ?thesis by (simp add: b2_def growsTo_refl)
  next
    case (Some ds)
    show ?thesis
    proof (cases "t \<noteq> [] \<and> ds \<noteq> []")
      case True
      with Some have "b2 = appendLine '' *'' (fold (\<lambda>line. appendLine ('' * '' @ line)) ds b1)"
        by (simp add: b2_def)
      with growsTo_trans[OF descs appendLine_grows] show ?thesis by simp
    next
      case False
      with Some have "b2 = fold (\<lambda>line. appendLine ('' * '' @ line)) ds b1"
        by (auto simp: b2_def)
      with descs show ?thesis by simp
    qed
  qed
  have g3: "growsTo b2 b3" unfolding b3_def
    by (rule fold_grows) (auto simp: appendLine_grows split: prod.splits)
  from growsTo_trans[OF growsTo_trans[OF growsTo_trans[OF g1 g2] g3] appendLine_grows] eq
  show ?thesis by simp
qed

lemma describe_grows: "growsTo b (describe d b)"
  by (simp add: describe_def createJSDocBlock_grows growsTo_refl)

lemma createImports_grows: "growsTo b (createImports imports b)"
  unfolding createImports_def
  by (auto intro!: growsTo_refl growsTo_trans[OF _ appendEmptyLine_grows] fold_grows appendLine_grows)

lemma addImportStatements_grows: "growsTo b (addImportStatements imports current b)"
  by (simp add: addImportStatements_def Let_def createImports_grows growsTo_refl)

lemma addFileHeader_grows: "growsTo b (addFileHeader b)"
  unfolding addFileHeader_def createFileHeader_def
  by (rule growsTo_trans[OF createJSDocBlock_grows appendEmptyLine_grows])


lemma createBlock_member:
  assumes "l \<in> set (content_b (body (indentBy 1 (appendLine (ol @ '' {'') b))))"
  shows "l \<in> set (content_b (createBlock ol body b))"
  using assms by (simp add: createBlock_def appendLine_def indentBy_def)


lemma indentOf_inner:
  "indentOf (indentBy 1 (appendLine l b)) = indentString b @ indentOf b"
  by (simp add: indentOf_def indentBy_def appendLine_def nat_add_distrib)

section \<open>The line of a property\<close>

text \<open>
  The line that declares a property in a model's file: one step of indentation, the name,
  a question mark if the property is optional, the type. It is shown to be in the file
  of every model whose schema has the property.
\<close>

definition propertyLine :: "nat \<Rightarrow> ModelProperty \<Rightarrow> string" where
  "propertyLine indentSize prop =
     replicate indentSize CHR '' '' @ propertyName prop
     @ (if isOptional_m prop then ''?'' else []) @ '': '' @ type_m prop @ '';''"

lemma newCodeBuilder_indent:
  "growsTo (newCodeBuilder indentSize) b \<Longrightarrow>
   indentOf b = [] \<and> indentString b = replicate indentSize CHR '' ''"
  by (simp add: growsTo_def indentOf_def newCodeBuilder_def)

lemma createInterfaceProperty_grows: "growsTo b (createInterfaceProperty n t opt d b)"
  unfolding createInterfaceProperty_def
  by (rule growsTo_trans[OF describe_grows appendLine_grows])

lemma createInterfaceProperty_member:
  "indentOf b @ n @ (if opt then ''?'' else []) @ '': '' @ t @ '';''
     \<in> set (content_b (createInterfaceProperty n t opt d b))"
  unfolding createInterfaceProperty_def
  using appendLine_member[of "describe d b"] growsTo_indentOf[OF describe_grows[of b d]]
  by simp

lemma typeProperty_grows: "growsTo b (typeProperty opts prop b)"
  unfolding typeProperty_def
  by (auto intro: growsTo_trans[OF createJSDocBlock_grows appendLine_grows] appendLine_grows)

lemma typeProperty_member:
  "indentOf b @ propertyName prop @ (if isOptional_m prop then ''?'' else []) @ '': ''
     @ type_m prop @ '';'' \<in> set (content_b (typeProperty opts prop b))"
proof -
  let ?b' = "if truthy (description_m prop) \<and> generateJsDoc opts
             then createJSDocBlock (descriptionLines (description_m prop)) [] b else b"
  have "growsTo b ?b'" by (simp add: createJSDocBlock_grows growsTo_refl)
  from growsTo_indentOf[OF this] appendLine_member[of ?b'] show ?thesis
    unfolding typeProperty_def by simp
qed

lemma dtoBuilder_start:
  "growsTo (newCodeBuilder indentSize) (addImportStatements imports mname (addFileHeader (newCodeBuilder indentSize)))"
  by (rule growsTo_trans[OF addFileHeader_grows addImportStatements_grows])

lemma interface_property_emitted:
  assumes start: "growsTo (newCodeBuilder indentSize) b" and p: "prop \<in> set props"
  shows "propertyLine indentSize prop \<in> set (content_b (generateInterfaceDefinition mname props b))"
proof -
  let ?d = "describe (Some (''Interface representing a '' @ mname @ '' model'')) b"
  let ?ol = "''export interface '' @ mname"
  let ?b1 = "indentBy 1 (appendLine (?ol @ '' {'') ?d)"
  let ?f = "\<lambda>prop. createInterfaceProperty (propertyName prop) (type_m prop) (isOptional_m prop)
                      (description_m prop)"
  have d: "growsTo (newCodeBuilder indentSize) ?d" by (rule growsTo_trans[OF start describe_grows])
  have ind: "indentOf ?b1 = replicate indentSize CHR '' ''"
    using newCodeBuilder_indent[OF d] by (simp add: indentOf_inner)
  have "indentOf ?b1 @ propertyName prop @ (if isOptional_m prop then ''?'' else []) @ '': ''
          @ type_m prop @ '';'' \<in> set (content_b (fold ?f props ?b1))"
    by (rule fold_member[where f = ?f and line = "\<lambda>prop. propertyName prop
          @ (if isOptional_m prop then ''?'' else []) @ '': '' @ type_m prop @ '';''", OF _ _ p])
       (rule createInterfaceProperty_grows, rule createInterfaceProperty_member)
  then have "propertyLine indentSize prop \<in> set (content_b (fold ?f props ?b1))"
    by (simp only: ind propertyLine_def)
  then show ?thesis
    unfolding generateInterfaceDefinition_def createInterface_def
    by (rule createBlock_member)
qed

lemma type_property_emitted:
  assumes start: "growsTo (newCodeBuilder indentSize) b" and p: "prop \<in> set props"
  shows "propertyLine indentSize prop \<in> set (content_b (generateTypeDefinition opts mname props baseType b))"
proof -
  let ?d = "createJSDocBlock (Some [''Type representing a '' @ mname @ '' model'']) [] b"
  let ?b1 = "indentBy 1 (appendLine (''export type '' @ mname @ '' = '' @ baseType @ '' & {'') ?d)"
  have d: "growsTo (newCodeBuilder indentSize) ?d" by (rule growsTo_trans[OF start createJSDocBlock_grows])
  have ind: "indentOf ?b1 = replicate indentSize CHR '' ''"
    using newCodeBuilder_indent[OF d] by (simp add: indentOf_inner)
  have "indentOf ?b1 @ propertyName prop @ (if isOptional_m prop then ''?'' else []) @ '': ''
          @ type_m prop @ '';'' \<in> set (content_b (fold (typeProperty opts) props ?b1))"
    by (rule fold_member[where f = "typeProperty opts" and line = "\<lambda>prop. propertyName prop
          @ (if isOptional_m prop then ''?'' else []) @ '': '' @ type_m prop @ '';''", OF _ _ p])
       (rule typeProperty_grows, rule typeProperty_member)
  then have "propertyLine indentSize prop \<in> set (content_b (fold (typeProperty opts) props ?b1))"
    by (simp only: ind propertyLine_def)
  moreover from p have "props \<noteq> []" by auto
  ultimately show ?thesis
    unfolding generateTypeDefinition_def
    by (simp add: appendEmptyLine_def appendLine_def indentBy_def)
qed

lemma collected_property:
  assumes "properties definition = Some entries" and "(propName, schema) \<in> set entries"
  shows "collectProperty definition propName schema \<in> set (fst (collectProperties definition))"
  using assms by (force simp: collectProperties_def)

lemma property_emitted:
  assumes "prop \<in> set (fst (collectProperties definition))"
  shows "propertyLine indentSize prop \<in> set (dtoContent indentSize opts mname definition)"
  unfolding dtoContent_def Let_def build_def
  using interface_property_emitted[OF dtoBuilder_start assms]
        type_property_emitted[OF dtoBuilder_start assms]
  by simp

lemma property_declared:
  assumes "properties definition = Some entries" and "(propName, schema) \<in> set entries"
  shows "propertyLine indentSize (collectProperty definition propName schema)
           \<in> set (dtoContent indentSize opts mname definition)"
  by (rule property_emitted[OF collected_property[OF assms]])

section \<open>Example documents\<close>

text \<open>
  Schemas and documents on which the theorems are tried: a schema with nothing set, a
  primitive, a reference, an object with properties and a composition.
\<close>

definition emptySchema :: SchemaObject where
  "emptySchema = SchemaObject None None None None None None None None None None None None"

definition primitiveSchema :: "string \<Rightarrow> SchemaObject" where
  "primitiveSchema t = SchemaObject (Some t) None None None None None None None None None None None"

definition nullableSchema :: "string \<Rightarrow> SchemaObject" where
  "nullableSchema t =
     SchemaObject (Some t) None (Some True) None None None None None None None None None"

definition refSchema :: "string \<Rightarrow> SchemaObject" where
  "refSchema r = SchemaObject None None None None None None None (Some r) None None None None"

definition objectSchema :: "(string \<times> SchemaObject) list \<Rightarrow> string list option \<Rightarrow> SchemaObject" where
  "objectSchema entries req =
     SchemaObject (Some ''object'') None None req (Some entries) None None None None None None None"

definition allOfSchema :: "SchemaObject list \<Rightarrow> SchemaObject" where
  "allOfSchema members =
     SchemaObject None None None None None None None None (Some members) None None None"

definition defaultOptions :: ConfigOptions where
  "defaultOptions =
     \<lparr>useStrictTypes = True, generateComments = True, generateJsDoc = True, indentation = 2,
      cleanOutputDir = False, filesToKeep = [''config.json'']\<rparr>"

definition operationWith ::
  "ParameterObject list option \<Rightarrow> (string \<times> ResponseObject) list \<Rightarrow> OperationObject" where
  "operationWith params resps =
     \<lparr>summary = None, description_o = None, operationId = None, parameters_o = params,
      requestBody = None, responses = resps\<rparr>"

definition respondingWith :: "SchemaObject option \<Rightarrow> (string \<times> ResponseObject) list" where
  "respondingWith schema = [(''200'', \<lparr>content_r = None, schema_r = schema\<rparr>)]"

definition getOnly :: "OperationObject \<Rightarrow> PathItemObject" where
  "getOnly operation =
     \<lparr>get = Some operation, post = None, put = None, delete = None, parameters_pi = None\<rparr>"

definition postOnly :: "OperationObject \<Rightarrow> PathItemObject" where
  "postOnly operation =
     \<lparr>get = None, post = Some operation, put = None, delete = None, parameters_pi = None\<rparr>"

definition legacySpec ::
  "(string \<times> PathItemObject) list \<Rightarrow> (string \<times> SchemaObject) list \<Rightarrow> OpenAPIDocument" where
  "legacySpec ps defs =
     \<lparr>openapi = None, paths = ps, basePath = Some ''/api'', servers = None,
      definitions = Some defs, components = None\<rparr>"

definition userSchema :: SchemaObject where
  "userSchema =
     objectSchema [(''id'', primitiveSchema ''integer''), (''nick'', nullableSchema ''string''),
                   (''bio'', primitiveSchema ''string'')]
                  (Some [''id'', ''nick''])"

section \<open>The path filter\<close>

text \<open>
  C8. The filter \<^verbatim>\<open>/users/.*\<close> selects \<^verbatim>\<open>/users/123\<close> and not \<^verbatim>\<open>/admin/users/123\<close>. The
  anchors that \<^verbatim>\<open>regexFilter\<close> writes around the pattern bind to its first and its last
  alternative only: the filter \<^verbatim>\<open>/users|/admin\<close> selects \<^verbatim>\<open>/users/123\<close> and
  \<^verbatim>\<open>/team/admin\<close>, neither of which matches the pattern as a whole, and leaves
  \<^verbatim>\<open>/admin/users\<close> out.
\<close>

theorem path_filter_alternation:
  "regexFilter jsRegExp ''/users/123'' ''/users/.*'' = Some True
   \<and> regexFilter jsRegExp ''/admin/users/123'' ''/users/.*'' = Some False
   \<and> regexFilter jsRegExp ''/users/123'' ''/users|/admin'' = Some True
   \<and> matchesWhole ''/users|/admin'' ''/users/123'' = Some False
   \<and> map_sum id (map fst)
        (pathsToProcess jsRegExp
           (legacySpec [(''/users/123'', getOnly (operationWith None [])),
                        (''/team/admin'', getOnly (operationWith None [])),
                        (''/admin/users'', getOnly (operationWith None []))] [])
           (Some ''/users|/admin''))
       = Inr [''/users/123'', ''/team/admin'']
   \<and> matchesWhole ''/users|/admin'' ''/team/admin'' = Some False
   \<and> matchesWhole ''/users|/admin'' ''/admin'' = Some True"
  by code_simp

section \<open>The body-population routine\<close>

definition loginDefinitions :: "(string \<times> SchemaObject) list" where
  "loginDefinitions =
     [(''LoginRequest'',
       objectSchema [(''username'', primitiveSchema ''string''),
                     (''user.password'', primitiveSchema ''string'')]
                    (Some [''username'', ''user.password''])),
      (''LoginResponse'', objectSchema [(''token'', primitiveSchema ''string'')] None)]"

definition loginSpec :: OpenAPIDocument where
  "loginSpec =
     legacySpec
       [(''/auth/Login'',
         postOnly (operationWith
                     (Some [\<lparr>name_p = ''body'', in_p = ''body'', description_p = None,
                             required_p = Some True,
                             schema_p = Some (refSchema ''#/definitions/LoginRequest''),
                             type_p = None\<rparr>])
                     (respondingWith (Some (refSchema ''#/definitions/LoginResponse'')))))]
       loginDefinitions"

text \<open>
  C7. For a payload schema with the properties \<^verbatim>\<open>username\<close> and \<^verbatim>\<open>user.password\<close>, the
  wrapper's routine has one statement for each, and the second reads the field
  \<^verbatim>\<open>this.data.user.password\<close>, while the model emitter declares the field as
  \<^verbatim>\<open>user_password\<close>: the names the routine copies are the keys of the schema, not the names
  the emitter gives them.
\<close>

theorem body_population_names:
  "copiedProperties loginDefinitions ''LoginRequest'' = [''username'', ''user.password'']
   \<and> map_option (\<lambda>schema. map propertyName (fst (collectProperties schema)))
        (map_of loginDefinitions ''LoginRequest'')
       = Some [''username'', ''user_password'']
   \<and> (case generate_post initialIndentSize jsRegExp defaultOptions loginSpec [''/auth/Login''] of
         Inr [wrapper] \<Rightarrow>
           filter (\<lambda>l. startsWith l ''    this.setIfNotEmpty'') (content wrapper)
           = [''    this.setIfNotEmpty(body, '' @ [CHR 0x27] @ ''username'' @ [CHR 0x27]
                @ '', this.data.username);'',
              ''    this.setIfNotEmpty(body, '' @ [CHR 0x27] @ ''user.password'' @ [CHR 0x27]
                @ '', this.data.user.password);'']
       | _ \<Rightarrow> False)
   \<and> (case generate initialIndentSize loginDefinitions defaultOptions [''LoginRequest''] of
         Some ([model], g) \<Rightarrow>
           ''  username: string;'' \<in> set (content model)
           \<and> ''  user_password: string;'' \<in> set (content model)
       | _ \<Rightarrow> False)"
  by code_simp

section \<open>The model emitter, case by case\<close>

definition inheritanceOf :: "SchemaObject \<Rightarrow> ImportStatement list \<times> string" where
  "inheritanceOf d = (if allOf d \<noteq> None then processInheritance d else ([], []))"

definition started :: "string \<Rightarrow> DTOGenerator \<Rightarrow> DTOGenerator" where
  "started modelRef g =
     g\<lparr>processingStack := insert modelRef (processingStack g),
       processedRefs_g := insert modelRef (processedRefs_g g)\<rparr>"

definition finished :: "string \<Rightarrow> DTOGenerator \<Rightarrow> DTOGenerator" where
  "finished modelRef g = g\<lparr>processingStack := processingStack g - {modelRef}\<rparr>"

lemma buildOutput_processed:
  "modelRef \<in> processedRefs_g g \<Longrightarrow> buildOutput indentSize fuel dict opts modelRef g = Some (None, g)"
  by simp

lemma buildOutput_inStack:
  "modelRef \<notin> processedRefs_g g \<Longrightarrow> modelRef \<in> processingStack g \<Longrightarrow>
   buildOutput indentSize fuel dict opts modelRef g
     = Some (None, g\<lparr>processedRefs_g := insert modelRef (processedRefs_g g)\<rparr>)"
  by simp

lemma buildOutput_missing:
  "modelRef \<notin> processedRefs_g g \<Longrightarrow> modelRef \<notin> processingStack g \<Longrightarrow>
   lookupDefinition dict modelRef = None \<Longrightarrow>
   buildOutput indentSize fuel dict opts modelRef g
     = Some (None, g\<lparr>warnings := warnings g @ [''Definition not found for model: '' @ modelRef]\<rparr>)"
  by simp

lemma buildOutput_exhausted:
  "modelRef \<notin> processedRefs_g g \<Longrightarrow> modelRef \<notin> processingStack g \<Longrightarrow>
   lookupDefinition dict modelRef = Some d \<Longrightarrow> buildOutput indentSize 0 dict opts modelRef g = None"
  by simp

lemma buildOutput_found:
  "modelRef \<notin> processedRefs_g g \<Longrightarrow> modelRef \<notin> processingStack g \<Longrightarrow>
   lookupDefinition dict modelRef = Some d \<Longrightarrow>
   buildOutput indentSize (Suc fuel') dict opts modelRef g
     = (case buildParents indentSize fuel' dict opts (fst (inheritanceOf d)) (started modelRef g) of
          None \<Rightarrow> None
        | Some g2 \<Rightarrow>
            Some (Some (dtoOutput indentSize opts (getModelPathAndName modelRef ''.'') d),
                  finished modelRef g2))"
  by (simp add: Let_def inheritanceOf_def started_def finished_def split: option.splits)

lemmas buildOutput_unfold =
  buildOutput_processed buildOutput_inStack buildOutput_missing buildOutput_exhausted
  buildOutput_found

declare buildOutput.simps [simp del]

lemma buildOutput_cases [consumes 1, case_names processed inStack missing found]:
  assumes r: "buildOutput indentSize fuel dict opts modelRef g = Some (out, g')"
  obtains
    (processed) "modelRef \<in> processedRefs_g g" "out = None" "g' = g"
  | (inStack) "modelRef \<notin> processedRefs_g g" "modelRef \<in> processingStack g" "out = None"
      "g' = g\<lparr>processedRefs_g := insert modelRef (processedRefs_g g)\<rparr>"
  | (missing) "modelRef \<notin> processedRefs_g g" "modelRef \<notin> processingStack g"
      "lookupDefinition dict modelRef = None" "out = None"
      "g' = g\<lparr>warnings := warnings g @ [''Definition not found for model: '' @ modelRef]\<rparr>"
  | (found) fuel' d g2 where "modelRef \<notin> processedRefs_g g" "modelRef \<notin> processingStack g"
      "lookupDefinition dict modelRef = Some d" "fuel = Suc fuel'"
      "buildParents indentSize fuel' dict opts (fst (inheritanceOf d)) (started modelRef g) = Some g2"
      "out = Some (dtoOutput indentSize opts (getModelPathAndName modelRef ''.'') d)"
      "g' = finished modelRef g2"
proof (cases "modelRef \<in> processedRefs_g g")
  case True
  from r True have "out = None" and "g' = g"
    by (simp_all add: buildOutput_processed)
  with True show ?thesis by (rule processed)
next
  case np: False
  show ?thesis
  proof (cases "modelRef \<in> processingStack g")
    case True
    from r np True have "out = None"
      and "g' = g\<lparr>processedRefs_g := insert modelRef (processedRefs_g g)\<rparr>"
      by (simp_all add: buildOutput_inStack)
    with np True show ?thesis by (rule inStack)
  next
    case ns: False
    show ?thesis
    proof (cases "lookupDefinition dict modelRef")
      case None
      from r np ns None have "out = None"
        and "g' = g\<lparr>warnings := warnings g @ [''Definition not found for model: '' @ modelRef]\<rparr>"
        by (simp_all add: buildOutput_missing)
      with np ns None show ?thesis by (rule missing)
    next
      case (Some d)
      show ?thesis
      proof (cases fuel)
        case 0
        from r np ns Some 0 have False by (simp add: buildOutput_exhausted)
        then show ?thesis ..
      next
        case (Suc fuel')
        from r have r': "buildOutput indentSize (Suc fuel') dict opts modelRef g = Some (out, g')"
          by (simp only: Suc)
        show ?thesis
        proof (cases "buildParents indentSize fuel' dict opts (fst (inheritanceOf d)) (started modelRef g)")
          case None
          from r' have False
            by (simp only: buildOutput_found[OF np ns Some] None option.case option.distinct)
          then show ?thesis ..
        next
          case g2: (Some g2)
          from r' have "out = Some (dtoOutput indentSize opts (getModelPathAndName modelRef ''.'') d)"
            and "g' = finished modelRef g2"
            by (simp_all only: buildOutput_found[OF np ns Some] g2 option.case option.inject
                  prod.inject)
          with np ns Some Suc g2 show ?thesis by (rule found)
        qed
      qed
    qed
  qed
qed

lemma buildParents_Cons:
  "buildParents indentSize fuel dict opts (imp # imps) g = Some g' \<longleftrightarrow>
     (\<exists>out g1. buildOutput indentSize fuel dict opts (name_i imp) g = Some (out, g1)
        \<and> buildParents indentSize fuel dict opts imps g1 = Some g')"
  by (auto split: option.splits)

lemma generateFrom_Cons:
  "generateFrom indentSize fuel dict opts (p # ps) g = Some (outs, g') \<longleftrightarrow>
     (\<exists>out g1 outs1. buildOutput indentSize fuel dict opts p g = Some (out, g1)
        \<and> generateFrom indentSize fuel dict opts ps g1 = Some (outs1, g')
        \<and> outs = (case out of None \<Rightarrow> [] | Some r \<Rightarrow> [r]) @ outs1)"
  by (auto split: option.splits)

section \<open>The model emitter always returns\<close>

definition knownNames :: "(string \<times> SchemaObject) list \<Rightarrow> string set" where
  "knownNames dict = fst ` set dict \<union> set objectPrototypeMembers"

definition pending :: "(string \<times> SchemaObject) list \<Rightarrow> DTOGenerator \<Rightarrow> nat" where
  "pending dict g = card (knownNames dict - processedRefs_g g)"

lemma lookup_own: "map_of dict r = Some d \<Longrightarrow> lookupDefinition dict r = Some d"
  by (simp add: lookupDefinition_def)

lemma lookup_known: "lookupDefinition dict r = Some d \<Longrightarrow> r \<in> knownNames dict"
  by (auto simp: lookupDefinition_def knownNames_def split: option.splits if_splits
        dest: map_of_SomeD intro: rev_image_eqI)

lemma finite_knownNames: "finite (knownNames dict)"
  by (simp add: knownNames_def)

lemma pending_started:
  assumes "lookupDefinition dict r = Some d" and "r \<notin> processedRefs_g g"
  shows "pending dict (started r g) < pending dict g"
proof -
  let ?A = "knownNames dict - processedRefs_g g"
  from lookup_known[OF assms(1)] assms(2) have mem: "r \<in> ?A" by simp
  have fin: "finite ?A" using finite_knownNames by simp
  have eq: "knownNames dict - insert r (processedRefs_g g) = ?A - {r}" by auto
  have "card (?A - {r}) < card ?A" by (rule card_Diff1_less[OF fin mem])
  then have "card (knownNames dict - insert r (processedRefs_g g)) < card ?A" by (simp only: eq)
  then show ?thesis by (simp add: pending_def started_def)
qed

lemma pending_mono:
  "processedRefs_g g \<subseteq> processedRefs_g g' \<Longrightarrow> pending dict g' \<le> pending dict g"
  unfolding pending_def by (rule card_mono) (auto simp: finite_knownNames)

lemma pending_bound: "pending dict g \<le> nameCount dict"
proof -
  have "pending dict g \<le> card (knownNames dict)"
    unfolding pending_def by (rule card_mono) (auto simp: finite_knownNames)
  also have "\<dots> \<le> card (fst ` set dict) + card (set objectPrototypeMembers)"
    unfolding knownNames_def by (rule card_Un_le)
  also have "\<dots> \<le> length dict + length objectPrototypeMembers"
  proof (rule add_mono)
    have "card (fst ` set dict) \<le> card (set dict)" by (rule card_image_le) simp
    also have "\<dots> \<le> length dict" by (rule card_length)
    finally show "card (fst ` set dict) \<le> length dict" .
    show "card (set objectPrototypeMembers) \<le> length objectPrototypeMembers" by (rule card_length)
  qed
  finally show ?thesis by (simp add: nameCount_def)
qed

lemma buildOutput_returns:
  "pending dict g \<le> fuel \<Longrightarrow>
     \<exists>out g'. buildOutput indentSize fuel dict opts modelRef g = Some (out, g')
        \<and> processedRefs_g g \<subseteq> processedRefs_g g'"
  and buildParents_returns:
  "pending dict g \<le> fuel \<Longrightarrow>
     \<exists>g'. buildParents indentSize fuel dict opts imps g = Some g'
        \<and> processedRefs_g g \<subseteq> processedRefs_g g'"
proof (induction indentSize fuel dict opts modelRef g and indentSize fuel dict opts imps g
       rule: buildOutput_buildParents.induct)
  case (1 indentSize fuel dict opts modelRef g)
  consider (a) "modelRef \<in> processedRefs_g g"
    | (b) "modelRef \<notin> processedRefs_g g" "modelRef \<in> processingStack g"
    | (c) "modelRef \<notin> processedRefs_g g" "modelRef \<notin> processingStack g" "lookupDefinition dict modelRef = None"
    | (d) d where "modelRef \<notin> processedRefs_g g" "modelRef \<notin> processingStack g"
        "lookupDefinition dict modelRef = Some d"
    by (cases "lookupDefinition dict modelRef") auto
  then show ?case
  proof cases
    case a then show ?thesis by (simp add: buildOutput_processed)
  next
    case b then show ?thesis by (auto simp: buildOutput_inStack)
  next
    case c then show ?thesis by (simp add: buildOutput_missing)
  next
    case d
    from pending_started[OF d(3) d(1)] "1.prems"
    obtain fuel' where fuel: "fuel = Suc fuel'" and le: "pending dict (started modelRef g) \<le> fuel'"
      by (cases fuel) auto
    have le': "pending dict
        (g\<lparr>processingStack := insert modelRef (processingStack g),
           processedRefs_g := insert modelRef (processedRefs_g g)\<rparr>) \<le> fuel'"
      using le by (simp add: started_def)
    from "1.IH"[OF _ _ d(3) fuel refl refl refl le'] d(1,2)
    obtain g2 where g2: "buildParents indentSize fuel' dict opts (fst (inheritanceOf d)) (started modelRef g) = Some g2"
      and sub: "processedRefs_g (started modelRef g) \<subseteq> processedRefs_g g2"
      by (auto simp: started_def inheritanceOf_def)
    from d fuel g2 sub show ?thesis
      by (auto simp: buildOutput_found started_def finished_def)
  qed
next
  case (2 indentSize fuel dict opts g)
  show ?case by simp
next
  case (3 indentSize fuel dict opts imp imps g)
  from "3.IH"(1)[OF "3.prems"] obtain out g1
    where b: "buildOutput indentSize fuel dict opts (name_i imp) g = Some (out, g1)"
      and s1: "processedRefs_g g \<subseteq> processedRefs_g g1" by auto
  from pending_mono[OF s1, of dict] "3.prems" have "pending dict g1 \<le> fuel" by simp
  from "3.IH"(2)[OF b refl this] obtain g2
    where "buildParents indentSize fuel dict opts imps g1 = Some g2"
      and "processedRefs_g g1 \<subseteq> processedRefs_g g2" by auto
  with b s1 show ?case by auto
qed

lemma generateFrom_returns:
  "pending dict g \<le> fuel \<Longrightarrow>
     \<exists>outs g'. generateFrom indentSize fuel dict opts ps g = Some (outs, g')
        \<and> processedRefs_g g \<subseteq> processedRefs_g g'"
proof (induction ps arbitrary: g)
  case Nil show ?case by simp
next
  case (Cons p ps)
  from buildOutput_returns[OF Cons.prems] obtain out g1
    where b: "buildOutput indentSize fuel dict opts p g = Some (out, g1)"
      and s: "processedRefs_g g \<subseteq> processedRefs_g g1" by blast
  from pending_mono[OF s, of dict] Cons.prems have "pending dict g1 \<le> fuel" by simp
  from Cons.IH[OF this] obtain outs1 g'
    where r: "generateFrom indentSize fuel dict opts ps g1 = Some (outs1, g')"
      and s': "processedRefs_g g1 \<subseteq> processedRefs_g g'" by blast
  from s s' have "processedRefs_g g \<subseteq> processedRefs_g g'" by (rule subset_trans)
  with b r show ?case unfolding generateFrom_Cons by blast
qed

lemma generate_returns: "\<exists>outs g. generate indentSize dict opts ps = Some (outs, g)"
  using generateFrom_returns[OF pending_bound] unfolding generate_def by blast


section \<open>Names without a definition\<close>

text \<open>
  Two facts about a run of the emitter. The names in its two sets all have a definition,
  and the list of diagnostics only grows.
\<close>

definition known :: "(string \<times> SchemaObject) list \<Rightarrow> DTOGenerator \<Rightarrow> bool" where
  "known dict g = (processedRefs_g g \<union> processingStack g \<subseteq> dom (lookupDefinition dict))"

definition keeps :: "(string \<times> SchemaObject) list \<Rightarrow> DTOGenerator \<Rightarrow> DTOGenerator \<Rightarrow> bool" where
  "keeps dict g g' = (known dict g' \<and> set (warnings g) \<subseteq> set (warnings g'))"

lemma known_new: "known dict newDTOGenerator"
  by (simp add: known_def newDTOGenerator_def)

lemma known_started: "known dict g \<Longrightarrow> lookupDefinition dict r = Some d \<Longrightarrow> known dict (started r g)"
  by (auto simp: known_def started_def)

lemma keeps_finished: "keeps dict g g2 \<Longrightarrow> keeps dict g (finished r g2)"
  by (auto simp: keeps_def known_def finished_def)

lemma keeps_from_started: "keeps dict (started r g) g2 \<Longrightarrow> keeps dict g g2"
  by (simp add: keeps_def started_def)

lemma keeps_trans: "keeps dict g g1 \<Longrightarrow> keeps dict g1 g2 \<Longrightarrow> keeps dict g g2"
  by (auto simp: keeps_def)

lemma buildOutput_keeps:
  "known dict g \<Longrightarrow> buildOutput indentSize fuel dict opts modelRef g = Some (out, g') \<Longrightarrow> keeps dict g g'"
  and buildParents_keeps:
  "known dict g \<Longrightarrow> buildParents indentSize fuel dict opts imps g = Some g' \<Longrightarrow> keeps dict g g'"
proof (induction indentSize fuel dict opts modelRef g and indentSize fuel dict opts imps g
       arbitrary: out g' and g' rule: buildOutput_buildParents.induct)
  case (1 indentSize fuel dict opts modelRef g)
  from "1.prems"(2) show ?case
  proof (cases rule: buildOutput_cases)
    case processed
    with "1.prems"(1) show ?thesis by (simp add: keeps_def)
  next
    case inStack
    with "1.prems"(1) show ?thesis by (auto simp: keeps_def known_def)
  next
    case missing
    with "1.prems"(1) show ?thesis by (auto simp: keeps_def known_def)
  next
    case (found fuel' d g2)
    have k: "known dict (started modelRef g)"
      using "1.prems"(1) found(3) by (rule known_started)
    have "keeps dict (started modelRef g) g2"
      using "1.IH"[OF found(1) found(2) found(3) found(4) refl refl refl] k found(5)
      by (simp add: started_def inheritanceOf_def)
    then have "keeps dict g g2" by (rule keeps_from_started)
    then have "keeps dict g (finished modelRef g2)" by (rule keeps_finished)
    with found(7) show ?thesis by simp
  qed
next
  case (2 indentSize fuel dict opts g)
  then show ?case by (simp add: keeps_def)
next
  case (3 indentSize fuel dict opts imp imps g)
  from "3.prems"(2)[unfolded buildParents_Cons] obtain out g1
    where b: "buildOutput indentSize fuel dict opts (name_i imp) g = Some (out, g1)"
      and r: "buildParents indentSize fuel dict opts imps g1 = Some g'"
    by blast
  from "3.IH"(1)[OF "3.prems"(1) b] have k1: "keeps dict g g1" .
  then have "known dict g1" by (simp add: keeps_def)
  from "3.IH"(2)[OF b refl this r] have "keeps dict g1 g'" .
  with k1 show ?case by (rule keeps_trans)
qed

lemma generateFrom_keeps:
  "known dict g \<Longrightarrow> generateFrom indentSize fuel dict opts ps g = Some (outs, g') \<Longrightarrow> keeps dict g g'"
proof (induction ps arbitrary: g outs)
  case Nil
  then show ?case by (simp add: keeps_def)
next
  case (Cons p ps)
  from Cons.prems(2)[unfolded generateFrom_Cons] obtain out g1 outs1
    where b: "buildOutput indentSize fuel dict opts p g = Some (out, g1)"
      and r: "generateFrom indentSize fuel dict opts ps g1 = Some (outs1, g')"
    by blast
  from buildOutput_keeps[OF Cons.prems(1) b] have k1: "keeps dict g g1" .
  then have "known dict g1" by (simp add: keeps_def)
  from Cons.IH[OF this r] have "keeps dict g1 g'" .
  with k1 show ?case by (rule keeps_trans)
qed

text \<open>
  The emitter reads its two sets and never its diagnostics: from two states with the same
  sets it gives the same output and ends in two states with the same sets.
\<close>

definition sameSets :: "DTOGenerator \<Rightarrow> DTOGenerator \<Rightarrow> bool" where
  "sameSets g h =
     (processedRefs_g g = processedRefs_g h \<and> processingStack g = processingStack h)"

lemma sameSets_started: "sameSets g h \<Longrightarrow> sameSets (started r g) (started r h)"
  by (simp add: sameSets_def started_def)

lemma sameSets_finished: "sameSets g h \<Longrightarrow> sameSets (finished r g) (finished r h)"
  by (simp add: sameSets_def finished_def)

lemma buildOutput_sameSets:
  "sameSets g h \<Longrightarrow> buildOutput indentSize fuel dict opts modelRef g = Some (out, g') \<Longrightarrow>
     \<exists>h'. buildOutput indentSize fuel dict opts modelRef h = Some (out, h') \<and> sameSets g' h'"
  and buildParents_sameSets:
  "sameSets g h \<Longrightarrow> buildParents indentSize fuel dict opts imps g = Some g' \<Longrightarrow>
     \<exists>h'. buildParents indentSize fuel dict opts imps h = Some h' \<and> sameSets g' h'"
proof (induction indentSize fuel dict opts modelRef g and indentSize fuel dict opts imps g
       arbitrary: h out g' and h g' rule: buildOutput_buildParents.induct)
  case (1 indentSize fuel dict opts modelRef g)
  note same = "1.prems"(1)
  from "1.prems"(2) show ?case
  proof (cases rule: buildOutput_cases)
    case processed
    with same have "modelRef \<in> processedRefs_g h" by (simp add: sameSets_def)
    with processed same show ?thesis by (simp add: buildOutput_processed)
  next
    case inStack
    with same have "modelRef \<notin> processedRefs_g h" "modelRef \<in> processingStack h"
      by (simp_all add: sameSets_def)
    with inStack same show ?thesis by (simp add: buildOutput_inStack sameSets_def)
  next
    case missing
    with same have "modelRef \<notin> processedRefs_g h" "modelRef \<notin> processingStack h"
      by (simp_all add: sameSets_def)
    with missing same show ?thesis by (simp add: buildOutput_missing sameSets_def)
  next
    case (found fuel' d g2)
    from found(1,2) same
    have nh: "modelRef \<notin> processedRefs_g h" "modelRef \<notin> processingStack h"
      by (simp_all add: sameSets_def)
    have "\<exists>h2. buildParents indentSize fuel' dict opts (fst (inheritanceOf d)) (started modelRef h) = Some h2
            \<and> sameSets g2 h2"
      using "1.IH"[OF found(1) found(2) found(3) found(4) refl refl refl, of "started modelRef h" g2]
        sameSets_started[OF same, of modelRef] found(5)
      by (simp add: started_def inheritanceOf_def)
    then obtain h2
      where h2: "buildParents indentSize fuel' dict opts (fst (inheritanceOf d)) (started modelRef h) = Some h2"
        and s2: "sameSets g2 h2" by blast
    from s2 have "sameSets (finished modelRef g2) (finished modelRef h2)"
      by (rule sameSets_finished)
    with found(4,6,7) h2 show ?thesis
      by (simp add: buildOutput_found[OF nh found(3)])
  qed
next
  case (2 indentSize fuel dict opts g)
  then show ?case by simp
next
  case (3 indentSize fuel dict opts imp imps g)
  from "3.prems"(2)[unfolded buildParents_Cons] obtain out g1
    where b: "buildOutput indentSize fuel dict opts (name_i imp) g = Some (out, g1)"
      and r: "buildParents indentSize fuel dict opts imps g1 = Some g'"
    by blast
  from "3.IH"(1)[OF "3.prems"(1) b] obtain h1
    where bh: "buildOutput indentSize fuel dict opts (name_i imp) h = Some (out, h1)"
      and s1: "sameSets g1 h1" by blast
  from "3.IH"(2)[OF b refl s1 r] obtain h'
    where "buildParents indentSize fuel dict opts imps h1 = Some h'" and "sameSets g' h'" by blast
  with bh show ?case unfolding buildParents_Cons by blast
qed

lemma generateFrom_sameSets:
  "sameSets g h \<Longrightarrow> generateFrom indentSize fuel dict opts ps g = Some (outs, g') \<Longrightarrow>
     \<exists>h'. generateFrom indentSize fuel dict opts ps h = Some (outs, h') \<and> sameSets g' h'"
proof (induction ps arbitrary: g h outs)
  case Nil
  then show ?case by simp
next
  case (Cons p ps)
  from Cons.prems(2)[unfolded generateFrom_Cons] obtain out g1 outs1
    where b: "buildOutput indentSize fuel dict opts p g = Some (out, g1)"
      and r: "generateFrom indentSize fuel dict opts ps g1 = Some (outs1, g')"
      and o: "outs = (case out of None \<Rightarrow> [] | Some r \<Rightarrow> [r]) @ outs1"
    by blast
  from buildOutput_sameSets[OF Cons.prems(1) b] obtain h1
    where bh: "buildOutput indentSize fuel dict opts p h = Some (out, h1)" and s1: "sameSets g1 h1"
    by blast
  from Cons.IH[OF s1 r] obtain h'
    where "generateFrom indentSize fuel dict opts ps h1 = Some (outs1, h')" and "sameSets g' h'" by blast
  with bh o show ?case unfolding generateFrom_Cons by blast
qed

lemma generateFrom_append:
  "generateFrom indentSize fuel dict opts ps g = Some (outs1, g1) \<Longrightarrow>
   generateFrom indentSize fuel dict opts qs g1 = Some (outs2, g') \<Longrightarrow>
   generateFrom indentSize fuel dict opts (ps @ qs) g = Some (outs1 @ outs2, g')"
proof (induction ps arbitrary: g outs1)
  case Nil
  then show ?case by simp
next
  case (Cons p ps)
  from Cons.prems(1)[unfolded generateFrom_Cons] obtain out g0 outs0
    where b: "buildOutput indentSize fuel dict opts p g = Some (out, g0)"
      and r: "generateFrom indentSize fuel dict opts ps g0 = Some (outs0, g1)"
      and o: "outs1 = (case out of None \<Rightarrow> [] | Some r \<Rightarrow> [r]) @ outs0"
    by blast
  from Cons.IH[OF r Cons.prems(2)]
  have "generateFrom indentSize fuel dict opts (ps @ qs) g0 = Some (outs0 @ outs2, g')" .
  with b o show ?case unfolding append_Cons generateFrom_Cons by simp
qed

text \<open>
  A name without a definition is in neither set of a state whose names are known, so the
  call for it always takes the branch that logs the diagnostic.
\<close>

lemma unknown_fresh:
  "known dict g \<Longrightarrow> lookupDefinition dict m = None \<Longrightarrow> m \<notin> processedRefs_g g \<and> m \<notin> processingStack g"
  by (auto simp: known_def)

lemma generateFrom_missing:
  assumes miss: "lookupDefinition dict m = None"
    and k: "known dict g"
    and fuel: "pending dict g \<le> fuel"
  shows "\<exists>outs g1 g2. generateFrom indentSize fuel dict opts (before @ m # after) g = Some (outs, g1)
           \<and> generateFrom indentSize fuel dict opts (before @ after) g = Some (outs, g2)
           \<and> (''Definition not found for model: '' @ m) \<in> set (warnings g1)"
proof -
  let ?w = "''Definition not found for model: '' @ m"
  from generateFrom_returns[OF fuel] obtain outs1 ga
    where a: "generateFrom indentSize fuel dict opts before g = Some (outs1, ga)"
      and sa: "processedRefs_g g \<subseteq> processedRefs_g ga" by blast
  from generateFrom_keeps[OF k a] have ka: "known dict ga" by (simp add: keeps_def)
  define gb where "gb = ga\<lparr>warnings := warnings ga @ [?w]\<rparr>"
  from unknown_fresh[OF ka miss]
  have b: "buildOutput indentSize fuel dict opts m ga = Some (None, gb)"
    unfolding gb_def by (simp add: buildOutput_missing[OF _ _ miss])
  have kb: "known dict gb" using ka by (simp add: gb_def known_def)
  have wb: "?w \<in> set (warnings gb)" by (simp add: gb_def)
  have same: "sameSets ga gb" by (simp add: gb_def sameSets_def)
  from pending_mono[OF sa, of dict] fuel have "pending dict ga \<le> fuel" by simp
  from generateFrom_returns[OF this] obtain outs2 g2
    where c: "generateFrom indentSize fuel dict opts after ga = Some (outs2, g2)" by blast
  from generateFrom_sameSets[OF same c] obtain g1
    where d: "generateFrom indentSize fuel dict opts after gb = Some (outs2, g1)" by blast
  from generateFrom_keeps[OF kb d] wb have w1: "?w \<in> set (warnings g1)"
    by (auto simp: keeps_def)
  from b d have "generateFrom indentSize fuel dict opts (m # after) ga = Some (outs2, g1)"
    unfolding generateFrom_Cons by simp
  from generateFrom_append[OF a this]
  have whole: "generateFrom indentSize fuel dict opts (before @ m # after) g = Some (outs1 @ outs2, g1)" .
  from generateFrom_append[OF a c]
  have rest: "generateFrom indentSize fuel dict opts (before @ after) g = Some (outs1 @ outs2, g2)" .
  from whole rest w1 show ?thesis by blast
qed

section \<open>Inheritance\<close>

text \<open>
  The dictionary of the example: \<^verbatim>\<open>Base\<close>, an object with one property, and \<^verbatim>\<open>Child\<close>,
  the composition of a reference to \<^verbatim>\<open>Base\<close> and of an inline member that declares the
  property \<^verbatim>\<open>x\<close>. \<open>inheritanceSpec names\<close> has one path for each of the names, in
  the order given, whose response is the model of that name. \<open>aliasOfBase\<close> is the file
  the emitter writes for \<^verbatim>\<open>Child\<close>.
\<close>

definition propertiesSchema :: "(string \<times> SchemaObject) list \<Rightarrow> SchemaObject" where
  "propertiesSchema entries =
     SchemaObject None None None None (Some entries) None None None None None None None"

definition inheritanceDefinitions :: "(string \<times> SchemaObject) list" where
  "inheritanceDefinitions =
     [(''Base'', objectSchema [(''id'', primitiveSchema ''integer'')] (Some [''id''])),
      (''Child'', allOfSchema [refSchema ''#/definitions/Base'',
                               propertiesSchema [(''x'', primitiveSchema ''string'')]])]"

definition returning :: "string \<Rightarrow> PathItemObject" where
  "returning r = getOnly (operationWith None (respondingWith (Some (refSchema r))))"

definition inheritanceSpec :: "string list \<Rightarrow> OpenAPIDocument" where
  "inheritanceSpec names =
     legacySpec (map (\<lambda>n. (''/'' @ n, returning (''#/definitions/'' @ n))) names)
       inheritanceDefinitions"

definition aliasOfBase :: "string list" where
  "aliasOfBase =
     [''/**'',
      '' * This code was generated using a code generation tool.'',
      '' * '',
      '' * Manual changes to this file may cause unexpected behavior.'',
      '' * Manual changes will be overwritten if the code is regenerated.'',
      '' */'',
      [],
      ''import { Base } from '' @ [CHR 0x27] @ ''data-access/web-service/dto//Base'' @ [CHR 0x27] @ '';'',
      [],
      ''/**'',
      '' * Type representing a Child model'',
      '' */'',
      ''export type Child = Base;'',
      []]"

lemma inheritanceOf_plain: "allOf d = None \<Longrightarrow> inheritanceOf d = ([], [])"
  by (simp add: inheritanceOf_def)

lemma modelImport_Base: "name_i (modelImport ''Base'') = ''Base''"
  by code_simp

lemma names_Base_Child:
  "modelName (getModelPathAndName ''Base'' ''.'') = ''Base''"
  "modelName (getModelPathAndName ''Child'' ''.'') = ''Child''"
  "buildFilePath (API_OUTPUT_PATH @ ''/'') ''dto''
     (createCorrectPath (modelPath (getModelPathAndName ''Base'' ''.''))) ''Base''
   = ''data-access/web-service/dto/Base.ts''"
  "buildFilePath (API_OUTPUT_PATH @ ''/'') ''dto''
     (createCorrectPath (modelPath (getModelPathAndName ''Child'' ''.''))) ''Child''
   = ''data-access/web-service/dto/Child.ts''"
  by code_simp+

lemma extractRefName_empty: "extractRefName [] = []"
  by code_simp

lemma inheritance_of_child:
  assumes "extractRefName r = ''Base''" and "\<not> truthy (ref inline)"
  shows "processInheritance (allOfSchema [refSchema r, inline]) = ([modelImport ''Base''], ''Base'')"
proof -
  from assms(1) extractRefName_empty have "r \<noteq> []" by auto
  with assms show ?thesis
    by (simp add: processInheritance_def allOfSchema_def refSchema_def dtoImport_def
          modelImport_Base)
qed

lemma alias_content:
  "build (generateTypeDefinition opts ''Child'' [] ''Base''
       (addImportStatements [modelImport ''Base''] ''Child'' (addFileHeader (newCodeBuilder indentSize))))
   = aliasOfBase"
  by code_simp

lemma content_of_child:
  assumes "extractRefName r = ''Base''" and "\<not> truthy (ref inline)"
  shows "dtoContent indentSize opts ''Child'' (allOfSchema [refSchema r, inline]) = aliasOfBase"
proof -
  have a: "allOf (allOfSchema [refSchema r, inline]) \<noteq> None"
    by (simp add: allOfSchema_def)
  have c: "collectProperties (allOfSchema [refSchema r, inline]) = ([], [])"
    by (simp add: collectProperties_def allOfSchema_def)
  show ?thesis
    unfolding dtoContent_def Let_def
    by (simp only: a c inheritance_of_child[OF assms] not_False_eq_True if_True fst_conv
          snd_conv append_Nil2 alias_content)
qed

text \<open>
  C1, as the code has it. For every dictionary in which \<^verbatim>\<open>Base\<close> has no parents and
  \<^verbatim>\<open>Child\<close> is the composition of a reference to \<^verbatim>\<open>Base\<close> and of an inline member, the
  batch \<^verbatim>\<open>Base\<close>, \<^verbatim>\<open>Child\<close> gives two records, first the one of \<^verbatim>\<open>Base\<close>, then the
  one of \<^verbatim>\<open>Child\<close>, and the declaration of \<^verbatim>\<open>Child\<close> is the alias
  \<^verbatim>\<open>export type Child = Base;\<close> after the import of \<^verbatim>\<open>Base\<close>: the inline member adds
  nothing to it, whatever it declares.
\<close>

theorem inheritance_alias:
  assumes base: "map_of dict ''Base'' = Some base"
    and plain: "allOf base = None"
    and child: "map_of dict ''Child'' = Some (allOfSchema [refSchema r, inline])"
    and target: "extractRefName r = ''Base''"
    and inline: "\<not> truthy (ref inline)"
  shows "generate indentSize dict opts [''Base'', ''Child'']
         = Some ([\<lparr>content = dtoContent indentSize opts ''Base'' base,
                   path = ''data-access/web-service/dto/Base.ts'', filename = ''Base''\<rparr>,
                  \<lparr>content = aliasOfBase,
                   path = ''data-access/web-service/dto/Child.ts'', filename = ''Child''\<rparr>],
                 \<lparr>processedRefs_g = {''Base'', ''Child''}, processingStack = {},
                  warnings = []\<rparr>)"
proof -
  let ?child = "allOfSchema [refSchema r, inline]"
  obtain n where n: "nameCount dict = Suc n"
    by (simp add: nameCount_def objectPrototypeMembers_def)
  note base' = lookup_own[OF base]
  note child' = lookup_own[OF child]
  define g0 where "g0 = newDTOGenerator"
  define g1 where "g1 = finished ''Base'' (started ''Base'' g0)"
  define g2 where "g2 = finished ''Child'' (started ''Child'' g1)"
  have s1: "buildOutput indentSize (Suc n) dict opts ''Base'' g0
            = Some (Some (dtoOutput indentSize opts (getModelPathAndName ''Base'' ''.'') base), g1)"
    by (simp add: buildOutput_found[OF _ _ base'] g0_def g1_def newDTOGenerator_def
          inheritanceOf_plain[OF plain])
  have inh: "inheritanceOf ?child = ([modelImport ''Base''], ''Base'')"
  proof -
    have "allOf ?child \<noteq> None" by (simp add: allOfSchema_def)
    then show ?thesis
      by (simp only: inheritanceOf_def not_False_eq_True if_True
            inheritance_of_child[OF target inline])
  qed
  have p: "buildOutput indentSize n dict opts ''Base'' (started ''Child'' g1) = Some (None, started ''Child'' g1)"
    by (rule buildOutput_processed) (simp add: started_def finished_def g1_def)
  have s2: "buildOutput indentSize (Suc n) dict opts ''Child'' g1
            = Some (Some (dtoOutput indentSize opts (getModelPathAndName ''Child'' ''.'') ?child), g2)"
  proof -
    have "''Child'' \<notin> processedRefs_g g1" "''Child'' \<notin> processingStack g1"
      by (simp_all add: g1_def g0_def started_def finished_def newDTOGenerator_def)
    from buildOutput_found[OF this child'] show ?thesis
      by (simp add: inh modelImport_Base p g2_def)
  qed
  have r1: "dtoOutput indentSize opts (getModelPathAndName ''Base'' ''.'') base
            = \<lparr>content = dtoContent indentSize opts ''Base'' base,
               path = ''data-access/web-service/dto/Base.ts'', filename = ''Base''\<rparr>"
    by (simp only: dtoOutput_def names_Base_Child)
  have r2: "dtoOutput indentSize opts (getModelPathAndName ''Child'' ''.'') ?child
            = \<lparr>content = aliasOfBase,
               path = ''data-access/web-service/dto/Child.ts'', filename = ''Child''\<rparr>"
    by (simp only: dtoOutput_def names_Base_Child content_of_child[OF target inline])
  have g: "g2 = \<lparr>processedRefs_g = {''Base'', ''Child''}, processingStack = {}, warnings = []\<rparr>"
    by (auto simp: g2_def g1_def g0_def started_def finished_def newDTOGenerator_def)
  have "generateFrom indentSize (Suc n) dict opts [''Base'', ''Child''] g0
        = Some ([dtoOutput indentSize opts (getModelPathAndName ''Base'' ''.'') base,
                 dtoOutput indentSize opts (getModelPathAndName ''Child'' ''.'') ?child], g2)"
    by (simp add: s1 s2)
  then show ?thesis
    by (simp only: generate_def n g0_def[symmetric] r1 r2 g)
qed

theorem inheritance_alias_witness:
  "generate initialIndentSize inheritanceDefinitions defaultOptions [''Base'', ''Child'']
   = Some ([\<lparr>content =
               dtoContent initialIndentSize defaultOptions ''Base''
                 (objectSchema [(''id'', primitiveSchema ''integer'')] (Some [''id''])),
             path = ''data-access/web-service/dto/Base.ts'', filename = ''Base''\<rparr>,
            \<lparr>content = aliasOfBase,
             path = ''data-access/web-service/dto/Child.ts'', filename = ''Child''\<rparr>],
           \<lparr>processedRefs_g = {''Base'', ''Child''}, processingStack = {}, warnings = []\<rparr>)"
proof -
  have b: "map_of inheritanceDefinitions ''Base''
           = Some (objectSchema [(''id'', primitiveSchema ''integer'')] (Some [''id'']))"
    by (simp add: inheritanceDefinitions_def)
  have p: "allOf (objectSchema [(''id'', primitiveSchema ''integer'')] (Some [''id''])) = None"
    by (simp add: objectSchema_def)
  have c: "map_of inheritanceDefinitions ''Child''
           = Some (allOfSchema [refSchema ''#/definitions/Base'',
                                propertiesSchema [(''x'', primitiveSchema ''string'')]])"
    by (simp add: inheritanceDefinitions_def)
  have t: "extractRefName ''#/definitions/Base'' = ''Base''"
    by code_simp
  have i: "\<not> truthy (ref (propertiesSchema [(''x'', primitiveSchema ''string'')]))"
    by (simp add: propertiesSchema_def)
  from inheritance_alias[OF b p c t i] show ?thesis .
qed

text \<open>
  C1, as the claim has it, fails on the example: with \<^verbatim>\<open>Child\<close> requested first the batch
  has the record of \<^verbatim>\<open>Child\<close> and no other, and the declaration in it is the alias of
  \<^verbatim>\<open>Base\<close>, without the property \<^verbatim>\<open>x\<close>.
\<close>

theorem inline_member_ignored:
  "map_option fst (generate initialIndentSize inheritanceDefinitions defaultOptions [''Child'', ''Base''])
   = Some [\<lparr>content = aliasOfBase,
            path = ''data-access/web-service/dto/Child.ts'', filename = ''Child''\<rparr>]
   \<and> ''export type Child = Base;'' \<in> set aliasOfBase"
  by code_simp

text \<open>
  C2. The records depend on the order. With the path of \<^verbatim>\<open>Base\<close> before the path of
  \<^verbatim>\<open>Child\<close> the batch has a record for each; with the paths exchanged the walker lists
  \<^verbatim>\<open>Child\<close> first and the batch has the record of \<^verbatim>\<open>Child\<close> only, because the record of
  a parent built inside the call for its child is dropped and the parent is marked as
  done. The same holds of the emitter alone, for the two orders of the names.
\<close>

theorem output_depends_on_order:
  "map_option (map_sum id (map filename))
      (dtoOutputs jsRegExp defaultOptions (inheritanceSpec [''Base'', ''Child'']) ''/.*'')
     = Some (Inr [''Base'', ''Child''])
   \<and> map_option (map_sum id (map filename))
      (dtoOutputs jsRegExp defaultOptions (inheritanceSpec [''Child'', ''Base'']) ''/.*'')
     = Some (Inr [''Child''])
   \<and> map_option (map filename \<circ> fst)
        (generate initialIndentSize inheritanceDefinitions defaultOptions [''Base'', ''Child''])
     = Some [''Base'', ''Child'']
   \<and> map_option (map filename \<circ> fst)
        (generate initialIndentSize inheritanceDefinitions defaultOptions [''Child'', ''Base''])
     = Some [''Child'']"
  by code_simp

section \<open>The records of a batch\<close>

text \<open>
  \<open>parentNames\<close>: the names under which the entries of a dictionary import their parents,
  which are the names \<^verbatim>\<open>buildOutput\<close> calls itself with.
\<close>

definition parentNames :: "(string \<times> SchemaObject) list \<Rightarrow> string set" where
  "parentNames dict =
     set (concat (map (\<lambda>(name, schema). map name_i (fst (processInheritance schema))) dict))"

lemma inheritanceOf_processInheritance: "inheritanceOf d = processInheritance d"
  by (simp add: inheritanceOf_def processInheritance_def)

lemma parents_of_entry:
  assumes "lookupDefinition dict m = Some d"
  shows "name_i ` set (fst (inheritanceOf d)) \<subseteq> parentNames dict"
proof (cases "map_of dict m")
  case None
  with assms have "d = inheritedMember"
    by (simp add: lookupDefinition_def split: if_splits)
  then show ?thesis
    by (simp add: inheritanceOf_def inheritedMember_def)
next
  case (Some d')
  with assms have "d' = d" by (simp add: lookupDefinition_def)
  with Some have "(m, d) \<in> set dict" by (auto dest: map_of_SomeD)
  then show ?thesis
    unfolding parentNames_def inheritanceOf_processInheritance by force
qed

text \<open>
  A call of \<^verbatim>\<open>buildOutput\<close> leaves the stack as it found it and marks, besides its own
  name, names of parents only.
\<close>

lemma buildOutput_stack:
  "buildOutput indentSize fuel dict opts modelRef g = Some (out, g') \<Longrightarrow>
     processingStack g' = processingStack g"
  and buildParents_stack:
  "buildParents indentSize fuel dict opts imps g = Some g' \<Longrightarrow>
     processingStack g' = processingStack g"
proof (induction indentSize fuel dict opts modelRef g and indentSize fuel dict opts imps g
       arbitrary: out g' and g' rule: buildOutput_buildParents.induct)
  case (1 indentSize fuel dict opts modelRef g)
  from "1.prems" show ?case
  proof (cases rule: buildOutput_cases)
    case processed
    then show ?thesis by simp
  next
    case inStack
    then show ?thesis by simp
  next
    case missing
    then show ?thesis by simp
  next
    case (found fuel' d g2)
    have parents: "buildParents indentSize fuel' dict opts
        (fst (if allOf d \<noteq> None then processInheritance d else ([], [])))
        (g\<lparr>processingStack := insert modelRef (processingStack g),
           processedRefs_g := insert modelRef (processedRefs_g g)\<rparr>) = Some g2"
      using found(5) by (simp add: started_def inheritanceOf_def)
    have "processingStack g2 = insert modelRef (processingStack g)"
      using "1.IH"[OF found(1) found(2) found(3) found(4) refl refl refl parents] by simp
    with found(2,7) show ?thesis by (auto simp: finished_def)
  qed
next
  case (2 indentSize fuel dict opts g)
  then show ?case by simp
next
  case (3 indentSize fuel dict opts imp imps g)
  from "3.prems"[unfolded buildParents_Cons] obtain out g1
    where b: "buildOutput indentSize fuel dict opts (name_i imp) g = Some (out, g1)"
      and r: "buildParents indentSize fuel dict opts imps g1 = Some g'"
    by blast
  from "3.IH"(1)[OF b] "3.IH"(2)[OF b refl r] show ?case by simp
qed

lemma buildOutput_marks:
  "buildOutput indentSize fuel dict opts modelRef g = Some (out, g') \<Longrightarrow>
     processedRefs_g g' \<subseteq> insert modelRef (processedRefs_g g) \<union> parentNames dict"
  and buildParents_marks:
  "buildParents indentSize fuel dict opts imps g = Some g' \<Longrightarrow>
     name_i ` set imps \<subseteq> parentNames dict \<Longrightarrow>
     processedRefs_g g' \<subseteq> processedRefs_g g \<union> parentNames dict"
proof (induction indentSize fuel dict opts modelRef g and indentSize fuel dict opts imps g
       arbitrary: out g' and g' rule: buildOutput_buildParents.induct)
  case (1 indentSize fuel dict opts modelRef g)
  from "1.prems" show ?case
  proof (cases rule: buildOutput_cases)
    case processed
    then show ?thesis by auto
  next
    case inStack
    then show ?thesis by auto
  next
    case missing
    then show ?thesis by auto
  next
    case (found fuel' d g2)
    have parents: "buildParents indentSize fuel' dict opts
        (fst (if allOf d \<noteq> None then processInheritance d else ([], [])))
        (g\<lparr>processingStack := insert modelRef (processingStack g),
           processedRefs_g := insert modelRef (processedRefs_g g)\<rparr>) = Some g2"
      using found(5) by (simp add: started_def inheritanceOf_def)
    have names: "name_i ` set (fst (if allOf d \<noteq> None then processInheritance d else ([], [])))
        \<subseteq> parentNames dict"
      using parents_of_entry[OF found(3)] by (simp add: inheritanceOf_def)
    have "processedRefs_g g2 \<subseteq> insert modelRef (processedRefs_g g) \<union> parentNames dict"
      using "1.IH"[OF found(1) found(2) found(3) found(4) refl refl refl parents names] by simp
    with found(7) show ?thesis by (simp add: finished_def)
  qed
next
  case (2 indentSize fuel dict opts g)
  then show ?case by simp
next
  case (3 indentSize fuel dict opts imp imps g)
  from "3.prems"(1)[unfolded buildParents_Cons] obtain out g1
    where b: "buildOutput indentSize fuel dict opts (name_i imp) g = Some (out, g1)"
      and r: "buildParents indentSize fuel dict opts imps g1 = Some g'"
    by blast
  from "3.prems"(2) have here: "name_i imp \<in> parentNames dict"
    and rest: "name_i ` set imps \<subseteq> parentNames dict" by auto
  from "3.IH"(1)[OF b] here
  have one: "processedRefs_g g1 \<subseteq> processedRefs_g g \<union> parentNames dict" by auto
  from "3.IH"(2)[OF b refl r rest]
  have "processedRefs_g g' \<subseteq> processedRefs_g g1 \<union> parentNames dict" .
  with one show ?case by blast
qed

text \<open>
  Every record of a batch is the record of one of the names requested, built from the
  name's definition; and a name requested that has a definition and is no parent's name
  has its record in the batch.
\<close>

lemma generateFrom_origin:
  "generateFrom indentSize fuel dict opts ps g = Some (outs, g') \<Longrightarrow> r \<in> set outs \<Longrightarrow>
     \<exists>m d. m \<in> set ps \<and> lookupDefinition dict m = Some d
       \<and> r = dtoOutput indentSize opts (getModelPathAndName m ''.'') d"
proof (induction ps arbitrary: g outs)
  case Nil
  then show ?case by simp
next
  case (Cons p ps)
  from Cons.prems(1)[unfolded generateFrom_Cons] obtain out g1 outs1
    where b: "buildOutput indentSize fuel dict opts p g = Some (out, g1)"
      and rest: "generateFrom indentSize fuel dict opts ps g1 = Some (outs1, g')"
      and o: "outs = (case out of None \<Rightarrow> [] | Some r \<Rightarrow> [r]) @ outs1"
    by blast
  from Cons.prems(2) o consider (first) "out = Some r" | (later) "r \<in> set outs1"
    by (cases out) auto
  then show ?case
  proof cases
    case first
    from b have "\<exists>d. lookupDefinition dict p = Some d
        \<and> r = dtoOutput indentSize opts (getModelPathAndName p ''.'') d"
      using first by (cases rule: buildOutput_cases) auto
    then show ?thesis by auto
  next
    case later
    from Cons.IH[OF rest later] show ?thesis by auto
  qed
qed

lemma generateFrom_emits:
  assumes "generateFrom indentSize fuel dict opts ps g = Some (outs, g')"
    and "m \<in> set ps" and "lookupDefinition dict m = Some d" and "m \<notin> parentNames dict"
    and "m \<notin> processedRefs_g g" and "m \<notin> processingStack g"
  shows "dtoOutput indentSize opts (getModelPathAndName m ''.'') d \<in> set outs"
  using assms
proof (induction ps arbitrary: g outs)
  case Nil
  then show ?case by simp
next
  case (Cons p ps)
  from Cons.prems(1)[unfolded generateFrom_Cons] obtain out g1 outs1
    where b: "buildOutput indentSize fuel dict opts p g = Some (out, g1)"
      and rest: "generateFrom indentSize fuel dict opts ps g1 = Some (outs1, g')"
      and o: "outs = (case out of None \<Rightarrow> [] | Some r \<Rightarrow> [r]) @ outs1"
    by blast
  show ?case
  proof (cases "p = m")
    case True
    from b have "out = Some (dtoOutput indentSize opts (getModelPathAndName m ''.'') d)"
      using Cons.prems(3,5,6) True by (cases rule: buildOutput_cases) auto
    with o show ?thesis by simp
  next
    case False
    with Cons.prems(2) have later: "m \<in> set ps" by simp
    from buildOutput_marks[OF b] Cons.prems(4,5) False
    have fresh: "m \<notin> processedRefs_g g1" by auto
    from buildOutput_stack[OF b] Cons.prems(6)
    have out_of_stack: "m \<notin> processingStack g1" by simp
    from Cons.IH[OF rest later Cons.prems(3) Cons.prems(4) fresh out_of_stack] o
    show ?thesis by simp
  qed
qed

section \<open>The optionality rule\<close>

lemma generate_origin:
  "generate indentSize dict opts ps = Some (outs, g) \<Longrightarrow> r \<in> set outs \<Longrightarrow>
     \<exists>m d. m \<in> set ps \<and> lookupDefinition dict m = Some d
       \<and> r = dtoOutput indentSize opts (getModelPathAndName m ''.'') d"
  unfolding generate_def by (rule generateFrom_origin)

lemma generate_emits:
  assumes "generate indentSize dict opts ps = Some (outs, g)"
    and "m \<in> set ps" and "lookupDefinition dict m = Some d" and "m \<notin> parentNames dict"
  shows "dtoOutput indentSize opts (getModelPathAndName m ''.'') d \<in> set outs"
  using assms(1)[unfolded generate_def] assms(2-4)
  by (rule generateFrom_emits) (simp_all add: newDTOGenerator_def)

lemma optional_mark:
  "collectProperty d propName schema
   = \<lparr>propertyName = sanitizePropertyName propName,
      type_m = resolvePropertyType schema,
      isOptional_m = (propName \<notin> set (orEmpty (required d)) \<or> nullable schema = Some True),
      description_m = description schema\<rparr>"
  by (cases "required d"; cases "nullable schema")
     (simp_all add: collectProperty_def isRequired_def isNullable_def)

lemma properties_declared:
  assumes "(propName, schema) \<in> set (orEmpty (properties d))"
  shows "propertyLine indentSize
           \<lparr>propertyName = sanitizePropertyName propName,
            type_m = resolvePropertyType schema,
            isOptional_m = (propName \<notin> set (orEmpty (required d)) \<or> nullable schema = Some True),
            description_m = description schema\<rparr>
         \<in> set (content (dtoOutput indentSize opts pn d))"
proof -
  from assms obtain entries
    where "properties d = Some entries" and "(propName, schema) \<in> set entries"
    by (cases "properties d") auto
  from property_declared[OF this, of indentSize opts "modelName pn"]
  show ?thesis by (simp add: optional_mark dtoOutput_def)
qed

text \<open>
  C6. A batch of the model emitter returns, and
  \<^item> every record of it is the record of one of the names requested, built from the
    definition a lookup finds for the name, and the record's file has, for every property
    of that definition, the line that declares the property, with a question mark after
    the name exactly when the property is not listed in \<^verbatim>\<open>required\<close> or is marked
    \<^verbatim>\<open>nullable: true\<close> (so a property that is required and nullable is optional, one that
    is neither is optional, and one that is required and not nullable is not);
  \<^item> every name requested that has a definition and is not the name of a parent of some
    entry has its record in the batch.
\<close>

theorem optionality_rule:
  "\<exists>outs g. generate indentSize dict opts ps = Some (outs, g)
     \<and> (\<forall>r \<in> set outs. \<exists>m d.
           m \<in> set ps \<and> lookupDefinition dict m = Some d
           \<and> r = dtoOutput indentSize opts (getModelPathAndName m ''.'') d
           \<and> (\<forall>(propName, schema) \<in> set (orEmpty (properties d)).
                 propertyLine indentSize
                   \<lparr>propertyName = sanitizePropertyName propName,
                    type_m = resolvePropertyType schema,
                    isOptional_m = (propName \<notin> set (orEmpty (required d))
                                    \<or> nullable schema = Some True),
                    description_m = description schema\<rparr>
                 \<in> set (content r)))
     \<and> (\<forall>m \<in> set ps. \<forall>d. lookupDefinition dict m = Some d \<longrightarrow> m \<notin> parentNames dict
           \<longrightarrow> dtoOutput indentSize opts (getModelPathAndName m ''.'') d \<in> set outs)"
proof -
  from generate_returns obtain outs g
    where gen: "generate indentSize dict opts ps = Some (outs, g)" by blast
  have "\<exists>m d. m \<in> set ps \<and> lookupDefinition dict m = Some d
           \<and> r = dtoOutput indentSize opts (getModelPathAndName m ''.'') d
           \<and> (\<forall>(propName, schema) \<in> set (orEmpty (properties d)).
                 propertyLine indentSize
                   \<lparr>propertyName = sanitizePropertyName propName,
                    type_m = resolvePropertyType schema,
                    isOptional_m = (propName \<notin> set (orEmpty (required d))
                                    \<or> nullable schema = Some True),
                    description_m = description schema\<rparr>
                 \<in> set (content r))" if "r \<in> set outs" for r
  proof -
    from generate_origin[OF gen that] obtain m d
      where m: "m \<in> set ps" and d: "lookupDefinition dict m = Some d"
        and r: "r = dtoOutput indentSize opts (getModelPathAndName m ''.'') d" by blast
    have "\<forall>(propName, schema) \<in> set (orEmpty (properties d)).
            propertyLine indentSize
              \<lparr>propertyName = sanitizePropertyName propName,
               type_m = resolvePropertyType schema,
               isOptional_m = (propName \<notin> set (orEmpty (required d))
                               \<or> nullable schema = Some True),
               description_m = description schema\<rparr>
            \<in> set (content r)"
      unfolding r using properties_declared by blast
    with m d r show ?thesis by blast
  qed
  moreover have "dtoOutput indentSize opts (getModelPathAndName m ''.'') d \<in> set outs"
    if "m \<in> set ps" and "lookupDefinition dict m = Some d" and "m \<notin> parentNames dict" for m d
    using gen that by (rule generate_emits)
  ultimately show ?thesis using gen by blast
qed

definition userDefinitions :: "(string \<times> SchemaObject) list" where
  "userDefinitions = [(''User'', userSchema)]"

theorem optionality_rule_witness:
  "\<exists>outs g r. generate initialIndentSize userDefinitions defaultOptions [''User''] = Some (outs, g)
     \<and> r \<in> set outs \<and> filename r = ''User''
     \<and> ''  id: number;'' \<in> set (content r)
     \<and> ''  nick?: string;'' \<in> set (content r)
     \<and> ''  bio?: string;'' \<in> set (content r)"
proof -
  let ?rec = "dtoOutput initialIndentSize defaultOptions (getModelPathAndName ''User'' ''.'') userSchema"
  from optionality_rule[of initialIndentSize userDefinitions defaultOptions "[''User'']"]
  obtain outs g
    where gen: "generate initialIndentSize userDefinitions defaultOptions [''User''] = Some (outs, g)"
      and origin: "\<forall>r \<in> set outs. \<exists>m d.
           m \<in> set [''User''] \<and> lookupDefinition userDefinitions m = Some d
           \<and> r = dtoOutput initialIndentSize defaultOptions (getModelPathAndName m ''.'') d
           \<and> (\<forall>(propName, schema) \<in> set (orEmpty (properties d)).
                 propertyLine initialIndentSize
                   \<lparr>propertyName = sanitizePropertyName propName,
                    type_m = resolvePropertyType schema,
                    isOptional_m = (propName \<notin> set (orEmpty (required d))
                                    \<or> nullable schema = Some True),
                    description_m = description schema\<rparr>
                 \<in> set (content r))"
      and emitted: "\<forall>m \<in> set [''User'']. \<forall>d. lookupDefinition userDefinitions m = Some d
           \<longrightarrow> m \<notin> parentNames userDefinitions
           \<longrightarrow> dtoOutput initialIndentSize defaultOptions (getModelPathAndName m ''.'') d \<in> set outs"
    by blast
  have entry: "lookupDefinition userDefinitions ''User'' = Some userSchema"
    by (simp add: lookupDefinition_def userDefinitions_def)
  have top: "''User'' \<notin> parentNames userDefinitions"
    by code_simp
  from emitted entry top have here: "?rec \<in> set outs" by simp
  from origin here obtain m d
    where m: "m \<in> set [''User'']" and d: "lookupDefinition userDefinitions m = Some d"
      and lines: "\<forall>(propName, schema) \<in> set (orEmpty (properties d)).
                 propertyLine initialIndentSize
                   \<lparr>propertyName = sanitizePropertyName propName,
                    type_m = resolvePropertyType schema,
                    isOptional_m = (propName \<notin> set (orEmpty (required d))
                                    \<or> nullable schema = Some True),
                    description_m = description schema\<rparr>
                 \<in> set (content ?rec)"
    by blast
  from m d entry have d': "d = userSchema" by simp
  have props: "orEmpty (properties userSchema)
      = [(''id'', primitiveSchema ''integer''), (''nick'', nullableSchema ''string''),
         (''bio'', primitiveSchema ''string'')]"
    by (simp add: userSchema_def objectSchema_def)
  have l1: "propertyLine initialIndentSize
      \<lparr>propertyName = sanitizePropertyName ''id'',
       type_m = resolvePropertyType (primitiveSchema ''integer''),
       isOptional_m = (''id'' \<notin> set (orEmpty (required userSchema))
                       \<or> nullable (primitiveSchema ''integer'') = Some True),
       description_m = description (primitiveSchema ''integer'')\<rparr> = ''  id: number;''"
    by code_simp
  have l2: "propertyLine initialIndentSize
      \<lparr>propertyName = sanitizePropertyName ''nick'',
       type_m = resolvePropertyType (nullableSchema ''string''),
       isOptional_m = (''nick'' \<notin> set (orEmpty (required userSchema))
                       \<or> nullable (nullableSchema ''string'') = Some True),
       description_m = description (nullableSchema ''string'')\<rparr> = ''  nick?: string;''"
    by code_simp
  have l3: "propertyLine initialIndentSize
      \<lparr>propertyName = sanitizePropertyName ''bio'',
       type_m = resolvePropertyType (primitiveSchema ''string''),
       isOptional_m = (''bio'' \<notin> set (orEmpty (required userSchema))
                       \<or> nullable (primitiveSchema ''string'') = Some True),
       description_m = description (primitiveSchema ''string'')\<rparr> = ''  bio?: string;''"
    by code_simp
  let ?entries = "[(''id'', primitiveSchema ''integer''), (''nick'', nullableSchema ''string''),
                   (''bio'', primitiveSchema ''string'')]"
  note each = lines[unfolded d' props]
  have m1: "(''id'', primitiveSchema ''integer'') \<in> set ?entries" by simp
  have m2: "(''nick'', nullableSchema ''string'') \<in> set ?entries" by simp
  have m3: "(''bio'', primitiveSchema ''string'') \<in> set ?entries" by simp
  from bspec[OF each m1] have "''  id: number;'' \<in> set (content ?rec)"
    by (simp only: prod.case l1)
  moreover from bspec[OF each m2] have "''  nick?: string;'' \<in> set (content ?rec)"
    by (simp only: prod.case l2)
  moreover from bspec[OF each m3] have "''  bio?: string;'' \<in> set (content ?rec)"
    by (simp only: prod.case l3)
  moreover have "filename ?rec = ''User''" by code_simp
  ultimately show ?thesis using gen here by blast
qed

section \<open>A name without a definition in a batch\<close>

text \<open>
  For a name no lookup finds, at any place of the batch: the batch returns, its records
  are those of the batch without the name, and the diagnostic that names it is in the log
  at the end.
\<close>

lemma unknown_name_skipped:
  assumes "lookupDefinition dict m = None"
  shows "\<exists>outs g g'. generate indentSize dict opts (before @ m # after) = Some (outs, g)
           \<and> generate indentSize dict opts (before @ after) = Some (outs, g')
           \<and> (''Definition not found for model: '' @ m) \<in> set (warnings g)"
  unfolding generate_def
  using assms known_new pending_bound by (rule generateFrom_missing)

definition danglingSpec :: "string \<Rightarrow> OpenAPIDocument" where
  "danglingSpec name =
     legacySpec
       [(''/auth/Login'',
         getOnly (operationWith None
                    (respondingWith (Some (refSchema (''#/definitions/'' @ name))))))]
       loginDefinitions"

text \<open>
  C9. The lookup \<^verbatim>\<open>this.definitions[modelRef]\<close> also finds what the dictionary inherits.
  The dictionary of the example has no entry \<^verbatim>\<open>constructor\<close> and none \<^verbatim>\<open>Ghost\<close>. For
  \<^verbatim>\<open>Ghost\<close> the batch has the records of the two other names and the log has the
  diagnostic. For \<^verbatim>\<open>constructor\<close> the batch has a third record, the file
  \<^verbatim>\<open>constructor.ts\<close> with an interface without properties, and the log is empty; the same
  record is all that the pipeline emits for a document whose only reference is the
  dangling \<^verbatim>\<open>#/definitions/constructor\<close>.
\<close>

theorem inherited_name_emitted:
  "map_of loginDefinitions ''Ghost'' = None
   \<and> map_of loginDefinitions ''constructor'' = None
   \<and> map_option (\<lambda>(outs, g). (map filename outs, warnings g))
        (generate initialIndentSize loginDefinitions defaultOptions
           [''LoginRequest'', ''Ghost'', ''LoginResponse''])
       = Some ([''LoginRequest'', ''LoginResponse''], [''Definition not found for model: Ghost''])
   \<and> map_option (\<lambda>(outs, g). (map filename outs, warnings g))
        (generate initialIndentSize loginDefinitions defaultOptions
           [''LoginRequest'', ''constructor'', ''LoginResponse''])
       = Some ([''LoginRequest'', ''constructor'', ''LoginResponse''], [])
   \<and> map_option fst (generate initialIndentSize loginDefinitions defaultOptions [''constructor''])
       = Some [\<lparr>content =
                  [''/**'',
                   '' * This code was generated using a code generation tool.'',
                   '' * '',
                   '' * Manual changes to this file may cause unexpected behavior.'',
                   '' * Manual changes will be overwritten if the code is regenerated.'',
                   '' */'',
                   [],
                   ''/**'',
                   '' * Interface representing a constructor model'',
                   '' */'',
                   ''export interface constructor {'',
                   ''}''],
                path = ''data-access/web-service/dto/constructor.ts'',
                filename = ''constructor''\<rparr>]
   \<and> discoverModelPaths jsRegExp (danglingSpec ''constructor'') (Some ''/auth/Login'')
       = Some (Inr [''constructor''])
   \<and> map_option (map_sum id (map filename))
        (dtoOutputs jsRegExp defaultOptions (danglingSpec ''constructor'') ''/auth/Login'')
       = Some (Inr [''constructor''])
   \<and> map_option (map_sum id (map filename))
        (dtoOutputs jsRegExp defaultOptions (danglingSpec ''Ghost'') ''/auth/Login'')
       = Some (Inr [])"
  by code_simp

section \<open>A response without a schema\<close>

















section \<open>Two models that refer to each other\<close>












section \<open>What the walk finds\<close>

text \<open>
  The names a schema refers to without a lookup: the name of its reference if it has one;
  else, for an array with items, the names of the items; else the names of its composition
  members, of its \<^verbatim>\<open>additionalProperties\<close> when that is a schema, and of its properties.
\<close>

lemma size_member: "x \<in> set xs \<Longrightarrow> size x \<le> size_list size xs"
  by (induction xs) auto

lemma size_composite_member:
  "x \<in> set (orEmpty (allOf s) @ orEmpty (oneOf s) @ orEmpty (anyOf s)) \<Longrightarrow> size x < size s"
  using size_member[of x "orEmpty (allOf s) @ orEmpty (oneOf s) @ orEmpty (anyOf s)"]
    size_composites[of s] by simp

lemma size_property_member:
  "(n, p) \<in> set (orEmpty (properties s)) \<Longrightarrow> size p < size s"
proof (cases "properties s")
  case None
  then show "(n, p) \<in> set (orEmpty (properties s)) \<Longrightarrow> size p < size s" by simp
next
  case (Some entries)
  assume "(n, p) \<in> set (orEmpty (properties s))"
  with Some have "(n, p) \<in> set entries" by simp
  then have "size p \<le> size_list (size_prod (\<lambda>x. 0) size) entries"
    by (induction entries) auto
  with size_properties[OF Some] show "size p < size s" by simp
qed

lemma size_additional_schema:
  "additionalProperties s = Some (AdditionalSchema a) \<Longrightarrow> size a < size s"
  using size_additional[of s] by simp

function refsOf :: "SchemaObject \<Rightarrow> string list" where
  "refsOf s =
     (if truthy (ref s) then [extractRefName (the (ref s))]
      else if sType s = Some ''array'' \<and> items s \<noteq> None then refsOf (the (items s))
      else concat (map refsOf (orEmpty (allOf s) @ orEmpty (oneOf s) @ orEmpty (anyOf s)))
           @ (case additionalProperties s of
                Some (AdditionalSchema a) \<Rightarrow> refsOf a
              | _ \<Rightarrow> [])
           @ concat (map (\<lambda>(n, p). refsOf p) (orEmpty (properties s))))"
  by pat_completeness auto
termination
proof (relation "measure size", goal_cases)
  case 1
  show ?case by simp
next
  case (2 s)
  then obtain it where "items s = Some it" by auto
  from size_items[OF this] this show ?case by simp
next
  case (3 s x)
  then show ?case using size_composite_member[of x s] by simp
next
  case (4 s x2 x2a)
  then show ?case using size_additional_schema[of s x2a] by simp
next
  case (5 s x xa y)
  then show ?case using size_property_member[of xa y s] by simp
qed


declare refsOf.simps [simp del]

lemma refsOf_reference: "truthy (ref s) \<Longrightarrow> refsOf s = [extractRefName (the (ref s))]"
  by (subst refsOf.simps) simp

lemma refsOf_array:
  "\<not> truthy (ref s) \<Longrightarrow> sType s = Some ''array'' \<Longrightarrow> items s \<noteq> None \<Longrightarrow>
     refsOf s = refsOf (the (items s))"
  by (subst refsOf.simps) simp

lemma refsOf_composite:
  "\<not> truthy (ref s) \<Longrightarrow> \<not> (sType s = Some ''array'' \<and> items s \<noteq> None) \<Longrightarrow>
     refsOf s = concat (map refsOf (orEmpty (allOf s) @ orEmpty (oneOf s) @ orEmpty (anyOf s)))
                @ (case additionalProperties s of
                     Some (AdditionalSchema a) \<Rightarrow> refsOf a
                   | _ \<Rightarrow> [])
                @ concat (map (\<lambda>(n, p). refsOf p) (orEmpty (properties s)))"
  by (subst refsOf.simps) auto

text \<open>
  The names reachable from a set of names: the names of the set, and the names a
  definition of a reachable name refers to.
\<close>

inductive reach :: "(string \<times> SchemaObject) list \<Rightarrow> string set \<Rightarrow> string \<Rightarrow> bool"
  for defs :: "(string \<times> SchemaObject) list" and start :: "string set" where
  given: "n \<in> start \<Longrightarrow> reach defs start n"
| referred: "reach defs start m \<Longrightarrow> lookupDefinition defs m = Some d \<Longrightarrow> n \<in> set (refsOf d)
          \<Longrightarrow> reach defs start n"

lemma reach_mono: "reach defs X n \<Longrightarrow> X \<subseteq> Y \<Longrightarrow> reach defs Y n"
  by (induction rule: reach.induct) (auto intro: reach.intros)

lemma reach_from_reached:
  "reach defs X n \<Longrightarrow> (\<And>x. x \<in> X \<Longrightarrow> reach defs Y x) \<Longrightarrow> reach defs Y n"
  by (induction rule: reach.induct) (auto intro: reach.intros)

lemma reach_definition:
  assumes "lookupDefinition defs r = Some d" and "reach defs (set (refsOf d)) n"
  shows "reach defs {r} n"
  using assms(2)
proof (rule reach_from_reached)
  fix x assume "x \<in> set (refsOf d)"
  with assms(1) show "reach defs {r} x"
    by (intro reach.referred[of defs "{r}" r d x] reach.given) simp_all
qed

text \<open>
  Between two visits the parser has listed exactly the names it has expanded, each once.
  \<open>found defs names st st'\<close> relates the parser before and after a visit that meets the
  names \<open>names\<close>: nothing is forgotten, the names are expanded, a name expanded during
  the visit has every name of its definition expanded, and every name expanded during
  the visit is reachable from \<open>names\<close>.
\<close>

definition settled :: "APISpecParser \<Rightarrow> bool" where
  "settled st = (set (modelRefs st) = processedRefs st \<and> distinct (modelRefs st))"

definition found ::
  "(string \<times> SchemaObject) list \<Rightarrow> string list \<Rightarrow> APISpecParser \<Rightarrow> APISpecParser \<Rightarrow> bool" where
  "found defs names st st' =
     (settled st'
      \<and> processedRefs st \<subseteq> processedRefs st'
      \<and> set names \<subseteq> processedRefs st'
      \<and> (\<forall>n \<in> processedRefs st' - processedRefs st. \<forall>d.
            lookupDefinition defs n = Some d \<longrightarrow> set (refsOf d) \<subseteq> processedRefs st')
      \<and> processedRefs st' \<subseteq> processedRefs st \<union> {n. reach defs (set names) n})"

lemma foundI:
  assumes "settled st'" and "processedRefs st \<subseteq> processedRefs st'"
    and "set names \<subseteq> processedRefs st'"
    and "\<And>n d. n \<in> processedRefs st' \<Longrightarrow> n \<notin> processedRefs st \<Longrightarrow>
           lookupDefinition defs n = Some d \<Longrightarrow> set (refsOf d) \<subseteq> processedRefs st'"
    and "\<And>n. n \<in> processedRefs st' \<Longrightarrow> n \<notin> processedRefs st \<Longrightarrow> reach defs (set names) n"
  shows "found defs names st st'"
  unfolding found_def using assms by (intro conjI) blast+

lemma found_settled: "found defs names st st' \<Longrightarrow> settled st'"
  by (simp add: found_def)

lemma found_grows: "found defs names st st' \<Longrightarrow> processedRefs st \<subseteq> processedRefs st'"
  by (simp add: found_def)

lemma found_names: "found defs names st st' \<Longrightarrow> set names \<subseteq> processedRefs st'"
  by (simp add: found_def)

lemma found_closed:
  "found defs names st st' \<Longrightarrow> n \<in> processedRefs st' \<Longrightarrow> n \<notin> processedRefs st \<Longrightarrow>
     lookupDefinition defs n = Some d \<Longrightarrow> set (refsOf d) \<subseteq> processedRefs st'"
  unfolding found_def by blast

lemma found_reached:
  "found defs names st st' \<Longrightarrow> n \<in> processedRefs st' \<Longrightarrow> n \<notin> processedRefs st \<Longrightarrow>
     reach defs (set names) n"
  unfolding found_def by blast

lemma found_nothing: "settled st \<Longrightarrow> found defs [] st st"
  by (simp add: found_def)

lemma found_append:
  assumes "found defs xs st st1" and "found defs ys st1 st2"
  shows "found defs (xs @ ys) st st2"
proof -
  have a: "reach defs (set xs) n \<Longrightarrow> reach defs (set (xs @ ys)) n" for n
    by (rule reach_mono) auto
  have b: "reach defs (set ys) n \<Longrightarrow> reach defs (set (xs @ ys)) n" for n
    by (rule reach_mono) auto
  from assms show ?thesis
    unfolding found_def
    apply (intro conjI)
        apply blast
       apply blast
      apply auto[1]
     apply blast
    using a b apply blast
    done
qed

lemma found_known:
  assumes "settled st" and "r \<in> processedRefs st"
  shows "found defs [r] st (addModelReference r st)"
  using assms by (auto simp: found_def settled_def addModelReference_def)


section \<open>The walk returns what is reachable\<close>

definition unexpanded :: "(string \<times> SchemaObject) list \<Rightarrow> APISpecParser \<Rightarrow> nat" where
  "unexpanded defs st = card (knownNames defs - processedRefs st)"

lemma unexpanded_mono:
  "processedRefs st \<subseteq> processedRefs st' \<Longrightarrow> unexpanded defs st' \<le> unexpanded defs st"
  unfolding unexpanded_def by (rule card_mono) (auto simp: finite_knownNames)

lemma unexpanded_less:
  assumes "lookupDefinition defs r = Some d" and "r \<notin> processedRefs st"
    and marked: "processedRefs st2 = insert r (processedRefs st)"
  shows "unexpanded defs st2 < unexpanded defs st"
proof -
  let ?A = "knownNames defs - processedRefs st"
  from lookup_known[OF assms(1)] assms(2) have mem: "r \<in> ?A" by simp
  have fin: "finite ?A" using finite_knownNames by simp
  have eq: "knownNames defs - insert r (processedRefs st) = ?A - {r}" by auto
  have "card (?A - {r}) < card ?A" by (rule card_Diff1_less[OF fin mem])
  then show ?thesis by (simp add: unexpanded_def marked eq)
qed

lemma unexpanded_bound: "unexpanded defs st \<le> nameCount defs"
proof -
  have "unexpanded defs st \<le> card (knownNames defs)"
    unfolding unexpanded_def by (rule card_mono) (auto simp: finite_knownNames)
  also have "\<dots> \<le> card (fst ` set defs) + card (set objectPrototypeMembers)"
    unfolding knownNames_def by (rule card_Un_le)
  also have "\<dots> \<le> length defs + length objectPrototypeMembers"
  proof (rule add_mono)
    have "card (fst ` set defs) \<le> card (set defs)" by (rule card_image_le) simp
    also have "\<dots> \<le> length defs" by (rule card_length)
    finally show "card (fst ` set defs) \<le> length defs" .
    show "card (set objectPrototypeMembers) \<le> length objectPrototypeMembers" by (rule card_length)
  qed
  finally show ?thesis by (simp add: nameCount_def)
qed

text \<open>
  \<open>walks defs fuel names st result\<close>: from a settled parser and with a bound that covers
  the names not yet expanded, the visit returns, and it has found \<open>names\<close>.
\<close>

definition walks ::
  "(string \<times> SchemaObject) list \<Rightarrow> nat \<Rightarrow> string list \<Rightarrow> APISpecParser \<Rightarrow> APISpecParser option
     \<Rightarrow> bool" where
  "walks defs fuel names st result =
     (settled st \<longrightarrow> unexpanded defs st \<le> fuel
        \<longrightarrow> (\<exists>st'. result = Some st' \<and> found defs names st st'))"

lemma walks_nothing: "walks defs fuel [] st (Some st)"
  by (simp add: walks_def found_nothing)

lemma walks_then:
  assumes one: "walks defs fuel xs st (f st)"
    and two: "\<And>st1. f st = Some st1 \<Longrightarrow> walks defs fuel ys st1 (g st1)"
  shows "walks defs fuel (xs @ ys) st (case f st of None \<Rightarrow> None | Some st1 \<Rightarrow> g st1)"
  unfolding walks_def
proof (intro impI)
  assume s: "settled st" and u: "unexpanded defs st \<le> fuel"
  with one obtain st1 where f: "f st = Some st1" and f1: "found defs xs st st1"
    by (auto simp: walks_def)
  from f1 have s1: "settled st1" and "processedRefs st \<subseteq> processedRefs st1"
    by (simp_all add: found_def)
  from unexpanded_mono[OF this(2), of defs] u have u1: "unexpanded defs st1 \<le> fuel" by simp
  from two[OF f] s1 u1 obtain st2 where g: "g st1 = Some st2" and f2: "found defs ys st1 st2"
    by (auto simp: walks_def)
  from found_append[OF f1 f2] f g
  show "\<exists>st'. (case f st of None \<Rightarrow> None | Some st1 \<Rightarrow> g st1) = Some st'
          \<and> found defs (xs @ ys) st st'"
    by simp
qed

lemma found_expanded:
  assumes s0: "settled st0" and new: "r \<notin> processedRefs st0"
    and d: "lookupDefinition defs r = Some d"
    and inner: "found defs (refsOf d)
                  ((addModelReference r st0)\<lparr>processedRefs := insert r (processedRefs st0)\<rparr>) st'"
  shows "found defs [r] st0 st'"
proof (rule foundI)
  let ?st2 = "(addModelReference r st0)\<lparr>processedRefs := insert r (processedRefs st0)\<rparr>"
  have p2: "processedRefs ?st2 = insert r (processedRefs st0)" by simp
  from found_grows[OF inner] have grow: "insert r (processedRefs st0) \<subseteq> processedRefs st'"
    by (simp only: p2)
  show "settled st'" by (rule found_settled[OF inner])
  from grow show "processedRefs st0 \<subseteq> processedRefs st'" by blast
  from grow show "set [r] \<subseteq> processedRefs st'" by simp
  show "set (refsOf d') \<subseteq> processedRefs st'"
    if "n \<in> processedRefs st'" and "n \<notin> processedRefs st0"
      and "lookupDefinition defs n = Some d'" for n d'
  proof (cases "n = r")
    case True
    with d that(3) have "d' = d" by simp
    with found_names[OF inner] show ?thesis by simp
  next
    case False
    with that(2) have "n \<notin> processedRefs ?st2" by simp
    from found_closed[OF inner that(1) this that(3)] show ?thesis .
  qed
  show "reach defs (set [r]) n" if "n \<in> processedRefs st'" and "n \<notin> processedRefs st0" for n
  proof (cases "n = r")
    case True
    then show ?thesis by (simp add: reach.given)
  next
    case False
    with that(2) have "n \<notin> processedRefs ?st2" by simp
    from found_reached[OF inner that(1) this] have "reach defs (set (refsOf d)) n" .
    from reach_definition[OF d this] show ?thesis by simp
  qed
qed

lemma settled_marked:
  assumes "settled st0" and "r \<notin> processedRefs st0"
  shows "settled ((addModelReference r st0)\<lparr>processedRefs := insert r (processedRefs st0)\<rparr>)"
proof -
  from assms have fresh: "r \<notin> set (modelRefs st0)" by (simp add: settled_def)
  then have "modelRefs (addModelReference r st0) = modelRefs st0 @ [r]"
    by (simp add: addModelReference_def)
  with assms(1) fresh show ?thesis by (auto simp: settled_def)
qed

lemma found_dangling:
  assumes s0: "settled st0" and new: "r \<notin> processedRefs st0"
    and none: "lookupDefinition defs r = None"
  shows "found defs [r] st0
           ((addModelReference r st0)\<lparr>processedRefs := insert r (processedRefs st0)\<rparr>)"
proof (rule foundI)
  let ?st2 = "(addModelReference r st0)\<lparr>processedRefs := insert r (processedRefs st0)\<rparr>"
  from s0 new have fresh: "r \<notin> set (modelRefs st0)" by (simp add: settled_def)
  then have m: "modelRefs ?st2 = modelRefs st0 @ [r]" by (simp add: addModelReference_def)
  have p2: "processedRefs ?st2 = insert r (processedRefs st0)" by simp
  from s0 fresh show "settled ?st2" unfolding settled_def m p2 by auto
  show "processedRefs st0 \<subseteq> processedRefs ?st2" unfolding p2 by blast
  show "set [r] \<subseteq> processedRefs ?st2" unfolding p2 by simp
  show "reach defs (set [r]) n" if "n \<in> processedRefs ?st2" and "n \<notin> processedRefs st0" for n
    using that unfolding p2 by (auto intro: reach.given)
  show "set (refsOf d) \<subseteq> processedRefs ?st2"
    if "n \<in> processedRefs ?st2" and "n \<notin> processedRefs st0"
      and "lookupDefinition defs n = Some d" for n d
  proof -
    from that(1,2) have "n = r" unfolding p2 by blast
    with that(3) none show ?thesis by simp
  qed
qed


declare processSchema.simps [simp del] processCompositeSchema.simps [simp del]
  processReferencedSchema.simps [simp del]

lemma walk_schema:
  "walks defs fuel (refsOf schema) st (processSchema fuel defs schema st)"
  and walk_composite:
  "\<not> truthy (ref schema) \<Longrightarrow>
     walks defs fuel (refsOf schema) st (processCompositeSchema fuel defs schema st)"
  and walk_list:
  "walks defs fuel (concat (map refsOf members)) st (processSchemaList fuel defs members st)"
  and walk_properties:
  "walks defs fuel (concat (map (\<lambda>(n, p). refsOf p) entries)) st
     (processPropertyList fuel defs entries st)"
  and walk_additional:
  "walks defs fuel (case additional of Some (AdditionalSchema a) \<Rightarrow> refsOf a | _ \<Rightarrow> []) st
     (processAdditional fuel defs additional st)"
  and walk_referenced:
  "settled st0 \<Longrightarrow> refName \<notin> processedRefs st0 \<Longrightarrow> st = addModelReference refName st0 \<Longrightarrow>
   unexpanded defs st0 \<le> fuel \<Longrightarrow>
     \<exists>st'. processReferencedSchema fuel defs refName st = Some st'
       \<and> found defs [refName] st0 st'"
proof (induction fuel defs schema st and fuel defs schema st and fuel defs members st
         and fuel defs entries st and fuel defs additional st and fuel defs refName st
       arbitrary: and and and and and st0
       rule: processSchema_processCompositeSchema_processSchemaList_processPropertyList_processAdditional_processReferencedSchema.induct)
  case (1 fuel defs schema st)
  show ?case
  proof (cases "truthy (ref schema)")
    case False
    with "1.IH"(2) show ?thesis by (simp add: processSchema.simps)
  next
    case True
    let ?r = "extractRefName (the (ref schema))"
    let ?st1 = "addModelReference ?r st"
    have same: "processedRefs ?st1 = processedRefs st" by (simp add: addModelReference_def)
    have run: "processSchema fuel defs schema st
        = (if ?r \<notin> processedRefs st then processReferencedSchema fuel defs ?r ?st1 else Some ?st1)"
      using True by (simp add: processSchema.simps Let_def same)
    show ?thesis
      unfolding walks_def refsOf_reference[OF True] run
    proof (intro impI)
      assume s: "settled st" and u: "unexpanded defs st \<le> fuel"
      show "\<exists>st'. (if ?r \<notin> processedRefs st then processReferencedSchema fuel defs ?r ?st1
                    else Some ?st1) = Some st' \<and> found defs [?r] st st'"
      proof (cases "?r \<in> processedRefs st")
        case True
        with found_known[OF s this] show ?thesis by simp
      next
        case False
        then have "?r \<notin> processedRefs ?st1" by (simp add: same)
        from "1.IH"(1)[OF True refl refl this s False refl u] False show ?thesis by simp
      qed
    qed
  qed
next
  case (2 fuel defs schema st)
  note plain = "2.prems"
  show ?case
  proof (cases "sType schema = Some ''array'' \<and> items schema \<noteq> None")
    case True
    then have "refsOf schema = refsOf (the (items schema))"
      using refsOf_array[OF plain] by simp
    with "2.IH"(1)[OF True] True show ?thesis
      by (simp add: processCompositeSchema.simps)
  next
    case False
    let ?members = "orEmpty (allOf schema) @ orEmpty (oneOf schema) @ orEmpty (anyOf schema)"
    let ?tail = "\<lambda>st2. case properties schema of None \<Rightarrow> Some st2
                        | Some entries \<Rightarrow> processPropertyList fuel defs entries st2"
    have run: "processCompositeSchema fuel defs schema st
        = (case processSchemaList fuel defs ?members st of
             None \<Rightarrow> None
           | Some st1 \<Rightarrow>
               (case processAdditional fuel defs (additionalProperties schema) st1 of
                  None \<Rightarrow> None
                | Some st2 \<Rightarrow> ?tail st2))"
      by (subst processCompositeSchema.simps) (simp only: False if_False)
    have last: "walks defs fuel (concat (map (\<lambda>(n, p). refsOf p) (orEmpty (properties schema)))) st2
                  (?tail st2)"
      if "processSchemaList fuel defs ?members st = Some st1"
        and "processAdditional fuel defs (additionalProperties schema) st1 = Some st2" for st1 st2
    proof (cases "properties schema")
      case None
      then show ?thesis by (simp add: walks_nothing)
    next
      case (Some entries)
      with "2.IH"(4)[OF False that Some] show ?thesis by simp
    qed
    have rest: "walks defs fuel
                  ((case additionalProperties schema of
                      Some (AdditionalSchema a) \<Rightarrow> refsOf a
                    | _ \<Rightarrow> [])
                   @ concat (map (\<lambda>(n, p). refsOf p) (orEmpty (properties schema)))) st1
                  (case processAdditional fuel defs (additionalProperties schema) st1 of
                     None \<Rightarrow> None
                   | Some st2 \<Rightarrow> ?tail st2)"
      if "processSchemaList fuel defs ?members st = Some st1" for st1
      by (rule walks_then[where f = "processAdditional fuel defs (additionalProperties schema)"
            and g = ?tail, OF "2.IH"(3)[OF False that] last[OF that]])
    show ?thesis
      unfolding run refsOf_composite[OF plain False]
      by (rule walks_then[where f = "processSchemaList fuel defs ?members", OF "2.IH"(2)[OF False] rest])
  qed
next
  case (3 fuel defs st)
  show ?case by (simp add: walks_nothing)
next
  case (4 fuel defs subSchema rest st)
  from walks_then[where f = "processSchema fuel defs subSchema"
         and g = "processSchemaList fuel defs rest", OF "4.IH"(1) "4.IH"(2)]
  show ?case by simp
next
  case (5 fuel defs st)
  show ?case by (simp add: walks_nothing)
next
  case (6 fuel defs propName propSchema rest st)
  from walks_then[where f = "processSchema fuel defs propSchema"
         and g = "processPropertyList fuel defs rest", OF "6.IH"(1) "6.IH"(2)]
  show ?case by simp
next
  case (7 fuel defs st)
  show ?case by (simp add: walks_nothing)
next
  case (8 fuel defs f st)
  show ?case by (simp add: walks_nothing)
next
  case (9 fuel defs a st)
  then show ?case by simp
next
  case (10 fuel defs refName st)
  note s0 = "10.prems"(1) and new = "10.prems"(2) and st = "10.prems"(3) and u = "10.prems"(4)
  let ?st2 = "(addModelReference refName st0)\<lparr>processedRefs := insert refName (processedRefs st0)\<rparr>"
  have same: "processedRefs (addModelReference refName st0) = processedRefs st0"
    by (simp add: addModelReference_def)
  have st2: "st\<lparr>processedRefs := insert refName (processedRefs st)\<rparr> = ?st2"
    by (simp add: st same)
  show ?case
  proof (cases "lookupDefinition defs refName")
    case None
    then have "processReferencedSchema fuel defs refName st = Some ?st2"
      by (simp add: processReferencedSchema.simps Let_def st2)
    with found_dangling[OF s0 new None] show ?thesis by simp
  next
    case (Some d)
    from lookup_known[OF Some] new have "refName \<in> knownNames defs - processedRefs st0" by simp
    then have "0 < unexpanded defs st0"
      unfolding unexpanded_def using finite_knownNames[of defs] by (auto simp: card_gt_0_iff)
    with u obtain fuel' where fuel: "fuel = Suc fuel'" by (cases fuel) auto
    have run: "processReferencedSchema fuel defs refName st = processSchema fuel' defs d ?st2"
      by (simp add: processReferencedSchema.simps Let_def st2 Some fuel)
    have settled2: "settled ?st2" by (rule settled_marked[OF s0 new])
    have "unexpanded defs ?st2 < unexpanded defs st0"
      by (rule unexpanded_less[OF Some new]) simp
    with u fuel have bound: "unexpanded defs ?st2 \<le> fuel'" by simp
    from "10.IH"[OF refl Some fuel]
    have "walks defs fuel' (refsOf d) ?st2 (processSchema fuel' defs d ?st2)"
      by (simp only: st2)
    with settled2 bound obtain st'
      where result: "processSchema fuel' defs d ?st2 = Some st'"
        and inner: "found defs (refsOf d) ?st2 st'"
      unfolding walks_def by blast
    from found_expanded[OF s0 new Some inner] result run show ?thesis by simp
  qed
qed


section \<open>The names of the selected paths\<close>

text \<open>
  The names the schemas of a path item refer to, in the order in which
  \<^verbatim>\<open>processPathOperations\<close> hands the schemas to the walk: for each operation its
  parameters (those of the path item first), its request body in the current dialect, and
  its responses.
\<close>

definition optionalRefs :: "SchemaObject option \<Rightarrow> string list" where
  "optionalRefs schema = (case schema of None \<Rightarrow> [] | Some s \<Rightarrow> refsOf s)"

definition contentRefs :: "(string \<times> MediaTypeObject) list \<Rightarrow> string list" where
  "contentRefs entries = concat (map (\<lambda>(mediaType, media). optionalRefs (schema_m media)) entries)"

definition requestRefs :: "bool \<Rightarrow> PathItemObject \<Rightarrow> OperationObject \<Rightarrow> string list" where
  "requestRefs oa3 pathItem operation =
     concat (map (\<lambda>param. optionalRefs (schema_p param))
                 (orEmpty (parameters_pi pathItem) @ orEmpty (parameters_o operation)))
     @ (case requestBody operation of
          Some body \<Rightarrow> if oa3 then contentRefs (orEmpty (content_rb body)) else []
        | None \<Rightarrow> [])"

definition responseRefs :: "bool \<Rightarrow> ResponseObject \<Rightarrow> string list" where
  "responseRefs oa3 response =
     (if oa3 \<and> content_r response \<noteq> None then contentRefs (orEmpty (content_r response))
      else optionalRefs (schema_r response))"

definition operationRefs :: "bool \<Rightarrow> PathItemObject \<Rightarrow> OperationObject \<Rightarrow> string list" where
  "operationRefs oa3 pathItem operation =
     requestRefs oa3 pathItem operation
     @ concat (map (\<lambda>(status, response). responseRefs oa3 response) (responses operation))"

definition pathRefs :: "bool \<Rightarrow> PathItemObject \<Rightarrow> string list" where
  "pathRefs oa3 pathItem = concat (map (operationRefs oa3 pathItem) (operationsOf pathItem))"

definition selectedRefs :: "bool \<Rightarrow> (string \<times> PathItemObject) list \<Rightarrow> string list" where
  "selectedRefs oa3 selected = concat (map (\<lambda>(p, pathItem). pathRefs oa3 pathItem) selected)"

lemma walks_forEach:
  assumes "\<And>x st. walks defs fuel (names x) st (f x st)"
  shows "walks defs fuel (concat (map names xs)) st (forEach f xs st)"
proof (induction xs arbitrary: st)
  case Nil
  show ?case by (simp add: walks_nothing)
next
  case (Cons x xs)
  from walks_then[where f = "f x" and g = "forEach f xs", OF assms Cons.IH]
  show ?case by simp
qed

lemma walk_optional:
  "walks defs fuel (optionalRefs schema) st (processOptionalSchema fuel defs schema st)"
  by (cases schema) (simp_all add: optionalRefs_def processOptionalSchema_def walks_nothing walk_schema)

lemma walk_content:
  "walks defs fuel (contentRefs entries) st (processContent fuel defs entries st)"
  unfolding contentRefs_def processContent_def
proof (rule walks_forEach)
  fix entry :: "string \<times> MediaTypeObject" and st
  show "walks defs fuel (case entry of (mediaType, media) \<Rightarrow> optionalRefs (schema_m media)) st
          ((case entry of (mediaType, media) \<Rightarrow> processOptionalSchema fuel defs (schema_m media)) st)"
    by (cases entry) (simp add: walk_optional)
qed

lemma walk_request:
  "walks defs fuel (requestRefs oa3 pathItem operation) st
     (processRequestModels fuel defs oa3 pathItem operation st)"
proof -
  let ?params = "orEmpty (parameters_pi pathItem) @ orEmpty (parameters_o operation)"
  let ?body = "\<lambda>st1. case requestBody operation of
                  Some body \<Rightarrow> if oa3 then processRequestBody fuel defs body st1 else Some st1
                | None \<Rightarrow> Some st1"
  have params: "walks defs fuel (concat (map (\<lambda>param. optionalRefs (schema_p param)) ?params)) st
                  (forEach (processParameter fuel defs) ?params st)" for st
    by (rule walks_forEach) (simp add: processParameter_def walk_optional)
  have body: "walks defs fuel
                (case requestBody operation of
                   Some body \<Rightarrow> if oa3 then contentRefs (orEmpty (content_rb body)) else []
                 | None \<Rightarrow> []) st1 (?body st1)" for st1
    by (cases "requestBody operation")
       (simp_all add: walks_nothing processRequestBody_def walk_content)
  from walks_then[where f = "forEach (processParameter fuel defs) ?params" and g = ?body,
         OF params body]
  show ?thesis
    by (simp add: requestRefs_def processRequestModels_def)
qed

lemma walk_response:
  "walks defs fuel (responseRefs oa3 response) st (processResponse fuel defs oa3 response st)"
proof (cases "oa3 \<and> content_r response \<noteq> None")
  case True
  then show ?thesis by (auto simp: responseRefs_def processResponse_def walk_content)
next
  case False
  then show ?thesis by (auto simp: responseRefs_def processResponse_def walk_optional)
qed

lemma walk_operation:
  "walks defs fuel (operationRefs oa3 pathItem operation) st
     (processOperation fuel defs oa3 pathItem operation st)"
proof -
  have responses: "walks defs fuel
        (concat (map (\<lambda>(status, response). responseRefs oa3 response) (responses operation))) st1
        (processResponseModels fuel defs oa3 operation st1)" for st1
    unfolding processResponseModels_def
  proof (rule walks_forEach)
    fix entry :: "string \<times> ResponseObject" and st
    show "walks defs fuel (case entry of (status, response) \<Rightarrow> responseRefs oa3 response) st
            ((case entry of (status, response) \<Rightarrow> processResponse fuel defs oa3 response) st)"
      by (cases entry) (simp add: walk_response)
  qed
  from walks_then[where f = "processRequestModels fuel defs oa3 pathItem operation"
         and g = "processResponseModels fuel defs oa3 operation", OF walk_request responses]
  show ?thesis
    by (simp add: operationRefs_def processOperation_def)
qed

lemma walk_path:
  "walks defs fuel (pathRefs oa3 pathItem) st (processPathOperations fuel defs oa3 pathItem st)"
  unfolding pathRefs_def processPathOperations_def
  by (rule walks_forEach) (rule walk_operation)

lemma walk_selected:
  "walks defs fuel (selectedRefs oa3 selected) st
     (forEach (\<lambda>(p, pathItem). processPathOperations fuel defs oa3 pathItem) selected st)"
  unfolding selectedRefs_def
proof (rule walks_forEach)
  fix entry :: "string \<times> PathItemObject" and st
  show "walks defs fuel (case entry of (p, pathItem) \<Rightarrow> pathRefs oa3 pathItem) st
          ((case entry of (p, pathItem) \<Rightarrow> processPathOperations fuel defs oa3 pathItem) st)"
    by (cases entry) (simp add: walk_path)
qed

text \<open>
  From the empty parser, the names listed are the names reachable from the names of the
  selected paths, each listed once.
\<close>

lemma found_from_empty:
  assumes "found defs names \<lparr>modelRefs = [], processedRefs = {}\<rparr> st'"
  shows "distinct (modelRefs st') \<and> set (modelRefs st') = {n. reach defs (set names) n}"
proof -
  from found_settled[OF assms] have listed: "set (modelRefs st') = processedRefs st'"
    and once: "distinct (modelRefs st')" by (simp_all add: settled_def)
  have "reach defs (set names) n" if "n \<in> processedRefs st'" for n
    using found_reached[OF assms that] by simp
  moreover have "n \<in> processedRefs st'" if "reach defs (set names) n" for n
    using that
  proof (induction rule: reach.induct)
    case (given n)
    with found_names[OF assms] show ?case by blast
  next
    case (referred m d n)
    from found_closed[OF assms referred.IH _ referred.hyps(2)] referred.hyps(3)
    show ?case by auto
  qed
  ultimately show ?thesis using listed once by blast
qed

lemma discover_reachable:
  assumes "pathsToProcess rx spec pattern = Inr selected"
  shows "\<exists>names. discoverModelPaths rx spec pattern = Some (Inr names)
           \<and> distinct names
           \<and> set names = {n. reach (getDefinitions spec)
                                (set (selectedRefs (isOpenApi3 spec) selected)) n}"
proof -
  let ?defs = "getDefinitions spec"
  let ?st0 = "\<lparr>modelRefs = [], processedRefs = {}\<rparr>"
  have "settled ?st0" by (simp add: settled_def)
  moreover have "unexpanded ?defs ?st0 \<le> nameCount ?defs" by (rule unexpanded_bound)
  ultimately obtain st'
    where run: "forEach (\<lambda>(p, pathItem).
                   processPathOperations (nameCount ?defs) ?defs (isOpenApi3 spec) pathItem)
                 selected ?st0 = Some st'"
      and all: "found ?defs (selectedRefs (isOpenApi3 spec) selected) ?st0 st'"
    using walk_selected[of ?defs "nameCount ?defs" "isOpenApi3 spec" selected ?st0]
    unfolding walks_def by blast
  from run assms have "discoverModelPaths rx spec pattern = Some (Inr (modelRefs st'))"
    by (simp add: discoverModelPaths_def processMatchingPaths_def)
  with found_from_empty[OF all] show ?thesis by blast
qed

section \<open>Discovery on cyclic dictionaries\<close>

definition cyclicDefinitions :: "(string \<times> SchemaObject) list" where
  "cyclicDefinitions =
     [(''A'', objectSchema [(''b'', refSchema ''#/definitions/B''),
                            (''z'', refSchema ''#/definitions/Zed'')] None),
      (''B'', objectSchema [(''a'', refSchema ''#/definitions/A'')] None)]"

definition cyclicSpec :: OpenAPIDocument where
  "cyclicSpec = legacySpec [(''/a'', returning ''#/definitions/A'')] cyclicDefinitions"

text \<open>
  C3. For a filter that selects paths (one the constructor of \<^verbatim>\<open>RegExp\<close> accepts, or
  none), \<^verbatim>\<open>discoverModelPaths\<close> returns, whatever cycles the dictionary has; the list it
  returns has no name twice, and its names are exactly the names reachable from the
  names the schemas of the selected paths refer to. So two entries that refer to each
  other and are reachable are both listed, once each.
\<close>

theorem discover_terminates:
  assumes "pathsToProcess rx spec pattern = Inr selected"
  shows "\<exists>names. discoverModelPaths rx spec pattern = Some (Inr names)
           \<and> distinct names
           \<and> set names = {n. reach (getDefinitions spec)
                                (set (selectedRefs (isOpenApi3 spec) selected)) n}"
  using assms by (rule discover_reachable)

theorem discover_terminates_witness:
  "discoverModelPaths jsRegExp cyclicSpec (Some ''/a'') = Some (Inr [''A'', ''B'', ''Zed''])
   \<and> distinct [''A'', ''B'', ''Zed'']
   \<and> set [''A'', ''B'', ''Zed'']
       = {n. reach (getDefinitions cyclicSpec)
               (set (selectedRefs (isOpenApi3 cyclicSpec) [(''/a'', returning ''#/definitions/A'')])) n}"
proof -
  have selected: "pathsToProcess jsRegExp cyclicSpec (Some ''/a'')
      = Inr [(''/a'', returning ''#/definitions/A'')]"
    by code_simp
  have run: "discoverModelPaths jsRegExp cyclicSpec (Some ''/a'') = Some (Inr [''A'', ''B'', ''Zed''])"
    by code_simp
  from discover_terminates[OF selected] obtain names
    where "discoverModelPaths jsRegExp cyclicSpec (Some ''/a'') = Some (Inr names)"
      and once: "distinct names"
      and all: "set names
        = {n. reach (getDefinitions cyclicSpec)
                (set (selectedRefs (isOpenApi3 cyclicSpec) [(''/a'', returning ''#/definitions/A'')])) n}"
    by blast
  with run have "names = [''A'', ''B'', ''Zed'']" by simp
  with once all run show ?thesis by blast
qed

text \<open>
  C10. A name that is reachable from the names of the selected paths and has no entry in
  the dictionary is in the list that \<^verbatim>\<open>discoverModelPaths\<close> returns: the walk lists the
  name of a reference before it looks the name up.
\<close>

theorem dangling_name_listed:
  assumes "pathsToProcess rx spec pattern = Inr selected"
    and "reach (getDefinitions spec) (set (selectedRefs (isOpenApi3 spec) selected)) n"
    and "map_of (getDefinitions spec) n = None"
  shows "\<exists>names. discoverModelPaths rx spec pattern = Some (Inr names) \<and> n \<in> set names"
  using discover_reachable[OF assms(1)] assms(2) by blast

theorem dangling_name_listed_witness:
  "map_of (getDefinitions cyclicSpec) ''Zed'' = None
   \<and> (\<exists>names. discoverModelPaths jsRegExp cyclicSpec (Some ''/a'') = Some (Inr names)
         \<and> ''Zed'' \<in> set names)"
proof -
  let ?a = "objectSchema [(''b'', refSchema ''#/definitions/B''),
                           (''z'', refSchema ''#/definitions/Zed'')] None"
  have selected: "pathsToProcess jsRegExp cyclicSpec (Some ''/a'')
      = Inr [(''/a'', returning ''#/definitions/A'')]"
    by code_simp
  have roots: "selectedRefs (isOpenApi3 cyclicSpec) [(''/a'', returning ''#/definitions/A'')] = [''A'']"
    by code_simp
  have entry: "lookupDefinition (getDefinitions cyclicSpec) ''A'' = Some ?a"
    by code_simp
  have refers: "''Zed'' \<in> set (refsOf ?a)"
    by code_simp
  have missing: "map_of (getDefinitions cyclicSpec) ''Zed'' = None"
    by code_simp
  have "reach (getDefinitions cyclicSpec) (set [''A'']) ''A''"
    by (rule reach.given) simp
  from reach.referred[OF this entry refers]
  have "reach (getDefinitions cyclicSpec)
          (set (selectedRefs (isOpenApi3 cyclicSpec) [(''/a'', returning ''#/definitions/A'')])) ''Zed''"
    by (simp only: roots)
  from dangling_name_listed[OF selected this missing] missing show ?thesis by blast
qed

end
